theory Spec2Isabelle
  imports Complex_Main "HOL-Library.Word"
begin

section \<open>Tensors\<close>

text \<open>
  A tensor is its shape and its elements in row-major order, as a contiguous
  torch tensor is laid out.  Floating-point elements are modelled as exact
  reals, and the arithmetic on them as exact, with one exception: the sigmoid
  rounds its result to the floating-point format, because that decides whether
  its upper bound is reached.  The elements of a \<^verbatim>\<open>uint8\<close> tensor are 8-bit
  words.
\<close>

record 'a tensor =
  shape :: "nat list"
  data :: "'a list"

text \<open>Every failure of the source is a value; the constructor names the operation that raises.\<close>

datatype error =
    DimOutOfRange
  | TriuError
  | UnpackError
  | ViewError
  | BroadcastError
  | MatmulError
  | MaskedFillError
  | SoftmaxError
  | LinearError
  | LayerNormError
  | ModuleIndexError
  | DropoutValueError

definition bindE :: "error + 'a \<Rightarrow> ('a \<Rightarrow> error + 'b) \<Rightarrow> error + 'b" where
  "bindE m f = (case m of Inl e \<Rightarrow> Inl e | Inr v \<Rightarrow> f v)"

definition numel :: "'a tensor \<Rightarrow> nat" where
  "numel t = prod_list (shape t)"

definition wf :: "'a tensor \<Rightarrow> bool" where
  "wf t = (length (data t) = prod_list (shape t))"

text \<open>Row-major offset of a multi-index, and the multi-index of an offset.\<close>

fun ravel :: "nat list \<Rightarrow> nat list \<Rightarrow> nat" where
  "ravel (d # ds) (i # is) = i * prod_list ds + ravel ds is"
| "ravel _ _ = 0"

fun unravel :: "nat list \<Rightarrow> nat \<Rightarrow> nat list" where
  "unravel [] n = []"
| "unravel (d # ds) n = (n div prod_list ds) # unravel ds (n mod prod_list ds)"

definition valid_index :: "nat list \<Rightarrow> nat list \<Rightarrow> bool" where
  "valid_index shp idx = list_all2 (\<lambda>i d. i < d) idx shp"

definition elem :: "'a tensor \<Rightarrow> nat list \<Rightarrow> 'a" where
  "elem t idx = data t ! ravel (shape t) idx"

definition tabulate :: "nat list \<Rightarrow> (nat list \<Rightarrow> 'a) \<Rightarrow> 'a tensor" where
  "tabulate shp f = \<lparr>shape = shp, data = map (\<lambda>n. f (unravel shp n)) [0..<prod_list shp]\<rparr>"

definition ones :: "nat list \<Rightarrow> real tensor" where
  "ones shp = tabulate shp (\<lambda>_. 1)"

definition zeros :: "nat list \<Rightarrow> real tensor" where
  "zeros shp = tabulate shp (\<lambda>_. 0)"

text \<open>\<^verbatim>\<open>np.triu(m, k)\<close>: on the last two axes, keep the entries with column - row >= k.\<close>

definition np_triu :: "real tensor \<Rightarrow> int \<Rightarrow> error + real tensor" where
  "np_triu m k =
     (let r = length (shape m) in
      if r < 2 then Inl TriuError
      else Inr (tabulate (shape m)
             (\<lambda>idx. if k \<le> int (idx ! (r - 1)) - int (idx ! (r - 2)) then elem m idx else 0)))"

text \<open>\<^verbatim>\<open>astype('uint8')\<close>: truncation, then the low eight bits.\<close>

definition astype_uint8 :: "real tensor \<Rightarrow> 8 word tensor" where
  "astype_uint8 t = \<lparr>shape = shape t, data = map (\<lambda>v. word_of_int \<lfloor>v\<rfloor>) (data t)\<rparr>"

text \<open>
  Python's slice \<^verbatim>\<open>start:stop\<close> on an axis of length n: a negative bound counts from
  the end, and both bounds are clamped to the axis, so a slice never raises.
\<close>

definition slice_bound :: "nat \<Rightarrow> int \<Rightarrow> nat" where
  "slice_bound n i = (if i < 0 then nat (max 0 (int n + i)) else min n (nat i))"

definition slice_start :: "nat \<Rightarrow> int option \<Rightarrow> nat" where
  "slice_start n s = (case s of None \<Rightarrow> 0 | Some i \<Rightarrow> slice_bound n i)"

definition slice_stop :: "nat \<Rightarrow> int option \<Rightarrow> nat" where
  "slice_stop n s = (case s of None \<Rightarrow> n | Some i \<Rightarrow> slice_bound n i)"

text \<open>\<^verbatim>\<open>t[..., start:stop, ...]\<close> on one axis; an axis the tensor does not have raises.\<close>

definition slice :: "'a tensor \<Rightarrow> nat \<Rightarrow> int option \<Rightarrow> int option \<Rightarrow> error + 'a tensor" where
  "slice t ax start stop =
     (if length (shape t) \<le> ax then Inl DimOutOfRange
      else let n = shape t ! ax; lo = slice_start n start; hi = slice_stop n stop
           in Inr (tabulate ((shape t)[ax := hi - lo])
                    (\<lambda>idx. elem t (idx[ax := idx ! ax + lo]))))"

definition swap :: "nat \<Rightarrow> nat \<Rightarrow> 'b list \<Rightarrow> 'b list" where
  "swap i j xs = xs[i := xs ! j, j := xs ! i]"

text \<open>\<^verbatim>\<open>t.transpose(d0, d1)\<close>, materialised (what \<^verbatim>\<open>.contiguous()\<close> then leaves as it is).\<close>

definition transpose_t :: "'a tensor \<Rightarrow> nat \<Rightarrow> nat \<Rightarrow> error + 'a tensor" where
  "transpose_t t d0 d1 =
     (if length (shape t) \<le> d0 \<or> length (shape t) \<le> d1 then Inl DimOutOfRange
      else Inr (tabulate (swap d0 d1 (shape t)) (\<lambda>idx. elem t (swap d0 d1 idx))))"

section \<open>The mask builder\<close>

definition create_mask :: "nat \<Rightarrow> nat \<Rightarrow> error + 8 word tensor" where
  "create_mask x y =
     bindE (np_triu (ones [1, x + 1, y + 1]) 1) (\<lambda>tri.
     let nopeak_mask = astype_uint8 tri;
         peak = nopeak_mask
     in bindE (slice peak 1 None (Some (- 1))) (\<lambda>rows.
        bindE (slice rows 2 (Some 1) None) (\<lambda>nopeak.
        transpose_t nopeak 1 2)))"


section \<open>Tensor operations of the library\<close>

text \<open>The size arguments of \<^verbatim>\<open>view\<close>: a number, or \<^verbatim>\<open>-1\<close> for the one inferred size.\<close>

datatype dim = Infer | Dim nat

fun known_dims :: "dim list \<Rightarrow> nat list" where
  "known_dims [] = []"
| "known_dims (Infer # ds) = known_dims ds"
| "known_dims (Dim n # ds) = n # known_dims ds"

fun fill_dim :: "nat \<Rightarrow> dim \<Rightarrow> nat" where
  "fill_dim m Infer = m"
| "fill_dim m (Dim n) = n"

text \<open>
  \<^verbatim>\<open>t.view(*sizes)\<close> keeps the elements and changes the shape.  It raises when two
  sizes are \<^verbatim>\<open>-1\<close>, when the known sizes do not divide the number of elements (or
  have product zero, where the inferred size would be ambiguous), and when
  the sizes without \<^verbatim>\<open>-1\<close> do not multiply to the number of elements.
\<close>

definition view :: "'a tensor \<Rightarrow> dim list \<Rightarrow> error + 'a tensor" where
  "view t ds =
     (let p = prod_list (known_dims ds); k = count_list ds Infer in
      if 1 < k then Inl ViewError
      else if k = 1 then
        (if p = 0 \<or> numel t mod p \<noteq> 0 then Inl ViewError
         else Inr \<lparr>shape = map (fill_dim (numel t div p)) ds, data = data t\<rparr>)
      else if p \<noteq> numel t then Inl ViewError
      else Inr \<lparr>shape = known_dims ds, data = data t\<rparr>)"

text \<open>\<^verbatim>\<open>t.size(k)\<close>.\<close>

definition size_t :: "'a tensor \<Rightarrow> nat \<Rightarrow> error + nat" where
  "size_t t k = (if k < length (shape t) then Inr (shape t ! k) else Inl DimOutOfRange)"

text \<open>
  Broadcasting: shapes are aligned at their last axis; two sizes agree when
  they are equal or one of them is 1.  The argument lists are the reversed shapes.
\<close>

fun broadcast_rev :: "nat list \<Rightarrow> nat list \<Rightarrow> nat list option" where
  "broadcast_rev [] ys = Some ys"
| "broadcast_rev xs [] = Some xs"
| "broadcast_rev (x # xs) (y # ys) =
     (if x = y \<or> y = 1 then map_option (\<lambda>r. x # r) (broadcast_rev xs ys)
      else if x = 1 then map_option (\<lambda>r. y # r) (broadcast_rev xs ys)
      else None)"

definition broadcast_shapes :: "nat list \<Rightarrow> nat list \<Rightarrow> nat list option" where
  "broadcast_shapes s1 s2 = map_option rev (broadcast_rev (rev s1) (rev s2))"

text \<open>The index into an operand of shape \<open>s\<close> that a result index reads.\<close>

definition bidx :: "nat list \<Rightarrow> nat list \<Rightarrow> nat list" where
  "bidx s idx = map2 (\<lambda>d i. if d = 1 then 0 else i) s (drop (length idx - length s) idx)"

definition add_t :: "real tensor \<Rightarrow> real tensor \<Rightarrow> error + real tensor" where
  "add_t a b =
     (case broadcast_shapes (shape a) (shape b) of
        None \<Rightarrow> Inl BroadcastError
      | Some s \<Rightarrow> Inr (tabulate s (\<lambda>idx. elem a (bidx (shape a) idx) + elem b (bidx (shape b) idx))))"

text \<open>
  \<^verbatim>\<open>torch.matmul\<close> on two tensors of three axes (the only use in the source, whose
  operands come from \<^verbatim>\<open>view(b * h, -1, d)\<close>): a batch of matrix products, the
  batch axes broadcast.  Operands of another rank are not covered and are
  reported as \<open>MatmulError\<close>.
\<close>

definition matmul :: "real tensor \<Rightarrow> real tensor \<Rightarrow> error + real tensor" where
  "matmul a b =
     (case (shape a, shape b) of
        ([n, p, q], [n', q', r]) \<Rightarrow>
          (if q \<noteq> q' then Inl MatmulError
           else case broadcast_shapes [n] [n'] of
             None \<Rightarrow> Inl MatmulError
           | Some nb \<Rightarrow> Inr (tabulate (nb @ [p, r])
               (\<lambda>idx. sum_list (map (\<lambda>e. elem a (bidx [n, p, q] [idx ! 0, idx ! 1, e])
                                        * elem b (bidx [n', q, r] [idx ! 0, e, idx ! 2])) [0..<q]))))
      | _ \<Rightarrow> Inl MatmulError)"

text \<open>\<^verbatim>\<open>mask == 0\<close>, elementwise.\<close>

definition eq_scalar :: "8 word tensor \<Rightarrow> 8 word \<Rightarrow> bool tensor" where
  "eq_scalar m c = \<lparr>shape = shape m, data = map (\<lambda>v. v = c) (data m)\<rparr>"

text \<open>
  \<^verbatim>\<open>t.masked_fill(mask, value)\<close> (out of place): the tensor and the mask are
  broadcast against each other; where the mask holds, the value replaces the element.
\<close>

definition masked_fill :: "real tensor \<Rightarrow> bool tensor \<Rightarrow> real \<Rightarrow> error + real tensor" where
  "masked_fill t m v =
     (case broadcast_shapes (shape m) (shape t) of
        None \<Rightarrow> Inl MaskedFillError
      | Some s \<Rightarrow> Inr (tabulate s (\<lambda>idx. if elem m (bidx (shape m) idx) then v
                                         else elem t (bidx (shape t) idx))))"

text \<open>\<^verbatim>\<open>F.softmax(t, dim)\<close>: along the axis, exponentials over their sum.\<close>

definition softmax :: "real tensor \<Rightarrow> nat \<Rightarrow> error + real tensor" where
  "softmax t ax =
     (if length (shape t) \<le> ax then Inl SoftmaxError
      else Inr (tabulate (shape t)
             (\<lambda>idx. exp (elem t idx)
                    / sum_list (map (\<lambda>k. exp (elem t (idx[ax := k]))) [0..<shape t ! ax]))))"

text \<open>
  \<^verbatim>\<open>F.linear(x, W, b)\<close>: on the last axis, \<open>x W\<^sup>T + b\<close>, with \<open>W\<close> of shape
  [out, in] and \<open>b\<close> of shape [out].
\<close>

definition F_linear :: "real tensor \<Rightarrow> real tensor \<Rightarrow> real tensor option \<Rightarrow> error + real tensor" where
  "F_linear x W b =
     (if length (shape W) \<noteq> 2 \<or> shape x = [] \<or> last (shape x) \<noteq> shape W ! 1
         \<or> (case b of None \<Rightarrow> False | Some bt \<Rightarrow> shape bt \<noteq> [shape W ! 0])
      then Inl LinearError
      else Inr (tabulate (butlast (shape x) @ [shape W ! 0])
             (\<lambda>idx. sum_list (map (\<lambda>e. elem x (butlast idx @ [e]) * elem W [last idx, e])
                                [0..<shape W ! 1])
                    + (case b of None \<Rightarrow> 0 | Some bt \<Rightarrow> elem bt [last idx]))))"

definition relu :: "real tensor \<Rightarrow> real tensor" where
  "relu t = \<lparr>shape = shape t, data = map (\<lambda>v. max 0 v) (data t)\<rparr>"

text \<open>
  The tensors of the program hold floating-point numbers, and \<^verbatim>\<open>nn.Sigmoid\<close>
  returns one: the number of the format next to \<open>1 / (1 + exp (- v))\<close>.  A
  format has \<open>p\<close> bits of precision and a least exponent \<open>emin\<close>; a real
  is rounded to the nearest multiple of the unit in the last place of its
  binade, a tie to the even one.  (The largest exponent plays no part here:
  the logistic function stays between 0 and 1.)  A module is constructed in
  the default dtype of torch, \<^verbatim>\<open>float32\<close>: 24 bits and least exponent -126.
  The call \<^verbatim>\<open>.double()\<close> of the script moves it to 53 bits and least exponent
  -1022; the facts on rounding that the results below rest on are proved for
  every format.
\<close>

definition round_to_even :: "real \<Rightarrow> int" where
  "round_to_even y =
     (let f = \<lfloor>y\<rfloor>; r = y - of_int f
      in if r < 1 / 2 then f else if 1 / 2 < r then f + 1 else if even f then f else f + 1)"

definition float_round :: "nat \<Rightarrow> int \<Rightarrow> real \<Rightarrow> real" where
  "float_round p emin x =
     (if x = 0 then 0
      else let e = max emin \<lfloor>log 2 \<bar>x\<bar>\<rfloor>;
               u = 2 powr (of_int e - (real p - 1))
           in of_int (round_to_even (x / u)) * u)"

definition float32 :: "real \<Rightarrow> real" where
  "float32 x = float_round 24 (- 126) x"

definition sigmoid :: "real tensor \<Rightarrow> real tensor" where
  "sigmoid t = \<lparr>shape = shape t, data = map (\<lambda>v. float32 (1 / (1 + exp (- v)))) (data t)\<rparr>"

text \<open>\<^verbatim>\<open>pe[pos, i] = v\<close>; the loops that use it stay inside the tensor.\<close>

definition set_elem :: "'a tensor \<Rightarrow> nat list \<Rightarrow> 'a \<Rightarrow> 'a tensor" where
  "set_elem t idx v = t\<lparr>data := (data t)[ravel (shape t) idx := v]\<rparr>"

definition unsqueeze0 :: "'a tensor \<Rightarrow> 'a tensor" where
  "unsqueeze0 t = t\<lparr>shape := 1 # shape t\<rparr>"

text \<open>\<^verbatim>\<open>range(start, stop, step)\<close> for a positive step.\<close>

definition py_range :: "nat \<Rightarrow> nat \<Rightarrow> nat \<Rightarrow> nat list" where
  "py_range start stop step = map (\<lambda>k. start + k * step) [0..<(stop - start + step - 1) div step]"

section \<open>Random numbers and the result of a module call\<close>

text \<open>
  The generator is a stream of draws; drawing \<open>n\<close> numbers returns
  them and the rest of the stream.  A computation that draws and may fail
  takes the stream and returns an error, or its value and the stream left.
  A constructor takes the values of its parameters from the stream, in the
  order of construction: torch draws the initial values, training then moves
  them, and the code puts no bound on them.  Dropout compares its draws,
  uniform in [0, 1), with the probability of keeping an element.
\<close>

type_synonym rng = "nat \<Rightarrow> real"

type_synonym 'a M = "rng \<Rightarrow> error + ('a \<times> rng)"

definition draw :: "nat \<Rightarrow> rng \<Rightarrow> real list \<times> rng" where
  "draw n g = (map g [0..<n], \<lambda>k. g (n + k))"

definition returnM :: "'a \<Rightarrow> 'a M" where
  "returnM v = (\<lambda>g. Inr (v, g))"

definition liftE :: "error + 'a \<Rightarrow> 'a M" where
  "liftE m = (\<lambda>g. case m of Inl e \<Rightarrow> Inl e | Inr v \<Rightarrow> Inr (v, g))"

definition bindM :: "'a M \<Rightarrow> ('a \<Rightarrow> 'b M) \<Rightarrow> 'b M" where
  "bindM m f = (\<lambda>g. case m g of Inl e \<Rightarrow> Inl e | Inr (v, g') \<Rightarrow> f v g')"

section \<open>Modules\<close>

subsection \<open>Linear, LayerNorm, Dropout, Sequential\<close>

record Linear =
  weight :: "real tensor"
  bias :: "real tensor option"

text \<open>\<^verbatim>\<open>nn.Linear(in_features, out_features, bias)\<close> draws its initial parameters.\<close>

definition Linear_init :: "nat \<Rightarrow> nat \<Rightarrow> bool \<Rightarrow> Linear M" where
  "Linear_init in_features out_features has_bias =
     (\<lambda>g. let (w, g1) = draw (out_features * in_features) g;
               (b, g2) = (if has_bias then draw out_features g1 else ([], g1))
           in Inr (\<lparr>weight = \<lparr>shape = [out_features, in_features], data = w\<rparr>,
                    bias = (if has_bias then Some \<lparr>shape = [out_features], data = b\<rparr> else None)\<rparr>,
                   g2))"

definition Linear_forward :: "Linear \<Rightarrow> real tensor \<Rightarrow> error + real tensor" where
  "Linear_forward l x = F_linear x (weight l) (bias l)"

record LayerNorm =
  normalized_shape :: nat
  ln_weight :: "real tensor"
  ln_bias :: "real tensor"
  eps :: real

definition LayerNorm_init :: "nat \<Rightarrow> LayerNorm" where
  "LayerNorm_init d =
     \<lparr>normalized_shape = d, ln_weight = ones [d], ln_bias = zeros [d], eps = 1 / 100000\<rparr>"

text \<open>
  \<^verbatim>\<open>nn.LayerNorm(d)\<close>: over the last axis, which must have size \<open>d\<close>, subtract the
  mean, divide by the square root of the (biased) variance plus \<open>eps\<close>, then
  scale and shift by the learned weight and bias.
\<close>

definition LayerNorm_forward :: "LayerNorm \<Rightarrow> real tensor \<Rightarrow> error + real tensor" where
  "LayerNorm_forward m x =
     (let d = normalized_shape m in
      if shape x = [] \<or> last (shape x) \<noteq> d \<or> shape (ln_weight m) \<noteq> [d] \<or> shape (ln_bias m) \<noteq> [d]
      then Inl LayerNormError
      else Inr (tabulate (shape x)
             (\<lambda>idx. let row = map (\<lambda>k. elem x (butlast idx @ [k])) [0..<d];
                        mean = sum_list row / real d;
                        var = sum_list (map (\<lambda>v. (v - mean)\<^sup>2) row) / real d
                    in (elem x idx - mean) / sqrt (var + eps m) * elem (ln_weight m) [last idx]
                       + elem (ln_bias m) [last idx])))"

record Dropout =
  drop_p :: real
  training :: bool

text \<open>\<^verbatim>\<open>nn.Dropout(p)\<close> refuses a probability outside [0, 1]; a new module is in training mode.\<close>

definition Dropout_init :: "real \<Rightarrow> error + Dropout" where
  "Dropout_init p =
     (if p < 0 \<or> 1 < p then Inl DropoutValueError else Inr \<lparr>drop_p = p, training = True\<rparr>)"

text \<open>
  In training mode every element is kept with probability \<open>1 - p\<close> and scaled
  by \<open>1 / (1 - p)\<close>, or set to zero; in evaluation mode dropout is the identity.
\<close>

definition Dropout_forward :: "Dropout \<Rightarrow> real tensor \<Rightarrow> real tensor M" where
  "Dropout_forward d x =
     (\<lambda>g. if training d
           then let (us, g') = draw (length (data x)) g
                in Inr (\<lparr>shape = shape x,
                         data = map2 (\<lambda>u v. if u < 1 - drop_p d then v / (1 - drop_p d) else 0)
                                  us (data x)\<rparr>, g')
           else Inr (x, g))"

datatype layer = Lin Linear | ReLU | Drop Dropout | Sigmoid

fun layer_forward :: "layer \<Rightarrow> real tensor \<Rightarrow> real tensor M" where
  "layer_forward (Lin l) x = liftE (Linear_forward l x)"
| "layer_forward ReLU x = returnM (relu x)"
| "layer_forward (Drop d) x = Dropout_forward d x"
| "layer_forward Sigmoid x = returnM (sigmoid x)"

text \<open>\<^verbatim>\<open>nn.Sequential\<close>: the layers in order.\<close>

fun Sequential_forward :: "layer list \<Rightarrow> real tensor \<Rightarrow> real tensor M" where
  "Sequential_forward [] x = returnM x"
| "Sequential_forward (l # ls) x = bindM (layer_forward l x) (Sequential_forward ls)"

subsection \<open>PositionalEncoding\<close>

record PositionalEncoding =
  pe :: "real tensor"

definition pe_row :: "nat \<Rightarrow> nat \<Rightarrow> real tensor \<Rightarrow> real tensor" where
  "pe_row d_model pos t =
     (let t1 = fold (\<lambda>i t. set_elem t [pos, i]
                       (sin (real pos / (10000 powr (real (2 * i) / real d_model)))))
                 (py_range 0 d_model 2) t
      in fold (\<lambda>i t. set_elem t [pos, i]
                 (cos (real pos / (10000 powr (real (2 * (i + 1)) / real d_model)))))
           (py_range 1 d_model 2) t1)"

definition PositionalEncoding_init :: "nat \<Rightarrow> nat \<Rightarrow> PositionalEncoding" where
  "PositionalEncoding_init window d_model =
     \<lparr>pe = unsqueeze0 (fold (pe_row d_model) [0..<window] (zeros [window, d_model]))\<rparr>"

definition PositionalEncoding_forward :: "PositionalEncoding \<Rightarrow> real tensor \<Rightarrow> error + real tensor" where
  "PositionalEncoding_forward m x =
     bindE (size_t x 1) (\<lambda>seq_len.
     bindE (slice (pe m) 1 None (Some (int seq_len))) (\<lambda>table.
     add_t x table))"

subsection \<open>Attention\<close>

definition scaled_dot_product_attention ::
  "real tensor \<Rightarrow> real tensor \<Rightarrow> real tensor \<Rightarrow> 8 word tensor option \<Rightarrow> error + real tensor" where
  "scaled_dot_product_attention k q v msk =
     (case shape k of
        [b, _, h, d] \<Rightarrow>
          bindE (transpose_t k 1 2) (\<lambda>kt. bindE (view kt [Dim (b * h), Infer, Dim d]) (\<lambda>k1.
          bindE (transpose_t q 1 2) (\<lambda>qt. bindE (view qt [Dim (b * h), Infer, Dim d]) (\<lambda>q1.
          bindE (transpose_t v 1 2) (\<lambda>vt. bindE (view vt [Dim (b * h), Infer, Dim d]) (\<lambda>v1.
          bindE (transpose_t k1 1 2) (\<lambda>k1t.
          bindE (matmul q1 k1t) (\<lambda>scores.
          bindE (case msk of None \<Rightarrow> Inr scores
                 | Some m \<Rightarrow> masked_fill scores (eq_scalar m 0) (- 1000000000)) (\<lambda>scores.
          bindE (softmax scores 2) (\<lambda>scores.
          bindE (matmul scores v1) (\<lambda>prod.
          bindE (view prod [Dim b, Dim h, Infer, Dim d]) (\<lambda>scores.
          bindE (transpose_t scores 1 2) (\<lambda>st.
          view st [Dim b, Infer, Dim (h * d)])))))))))))))
      | _ \<Rightarrow> Inl UnpackError)"

record MultiHeadAttention =
  mha_h :: nat
  mha_dropout :: Dropout
  mha_mask :: "8 word tensor option"
  mha_d_model :: nat
  mha_pred_window :: nat
  mha_context_window :: nat
  mha_first :: "bool option"
  q_linear :: Linear
  v_linear :: Linear
  k_linear :: Linear
  unifyheads :: Linear

definition MultiHeadAttention_init ::
  "nat \<Rightarrow> nat \<Rightarrow> nat \<Rightarrow> nat \<Rightarrow> bool option \<Rightarrow> real \<Rightarrow> 8 word tensor option \<Rightarrow> MultiHeadAttention M" where
  "MultiHeadAttention_init heads d_model context_window pred_window first dropout msk =
     bindM (liftE (Dropout_init dropout)) (\<lambda>dr.
     bindM (Linear_init d_model (heads * d_model) False) (\<lambda>ql.
     bindM (Linear_init d_model (heads * d_model) False) (\<lambda>vl.
     bindM (Linear_init d_model (heads * d_model) False) (\<lambda>kl.
     bindM (Linear_init (heads * d_model) d_model True) (\<lambda>ul.
     returnM \<lparr>mha_h = heads, mha_dropout = dr, mha_mask = msk, mha_d_model = d_model,
              mha_pred_window = pred_window, mha_context_window = context_window,
              mha_first = first, q_linear = ql, v_linear = vl, k_linear = kl,
              unifyheads = ul\<rparr>)))))"

definition MultiHeadAttention_forward ::
  "MultiHeadAttention \<Rightarrow> real tensor \<Rightarrow> real tensor \<Rightarrow> real tensor \<Rightarrow> error + real tensor" where
  "MultiHeadAttention_forward m q k v =
     bindE (size_t q 0) (\<lambda>b.
     bindE (Linear_forward (k_linear m) k) (\<lambda>kp.
     bindE (view kp [Dim b, Infer, Dim (mha_h m), Dim (mha_d_model m)]) (\<lambda>k1.
     bindE (Linear_forward (q_linear m) q) (\<lambda>qp.
     bindE (view qp [Dim b, Infer, Dim (mha_h m), Dim (mha_d_model m)]) (\<lambda>q1.
     bindE (Linear_forward (v_linear m) v) (\<lambda>vp.
     bindE (view vp [Dim b, Infer, Dim (mha_h m), Dim (mha_d_model m)]) (\<lambda>v1.
     bindE (scaled_dot_product_attention k1 q1 v1 (mha_mask m)) (\<lambda>output.
     Linear_forward (unifyheads m) output))))))))"

subsection \<open>FeedForward\<close>

record FeedForward =
  ff_linear :: "layer list"

definition FeedForward_init :: "nat \<Rightarrow> real \<Rightarrow> FeedForward M" where
  "FeedForward_init d_model dropout =
     bindM (Linear_init d_model (10 * d_model) True) (\<lambda>l1.
     bindM (liftE (Dropout_init dropout)) (\<lambda>dr.
     bindM (Linear_init (10 * d_model) d_model True) (\<lambda>l2.
     returnM \<lparr>ff_linear = [Lin l1, ReLU, Drop dr, Lin l2]\<rparr>)))"

definition FeedForward_forward :: "FeedForward \<Rightarrow> real tensor \<Rightarrow> real tensor M" where
  "FeedForward_forward m x = Sequential_forward (ff_linear m) x"

subsection \<open>Encoder\<close>

record EncoderLayer =
  el_d_model :: nat
  el_heads :: nat
  el_norm_1 :: LayerNorm
  el_norm_2 :: LayerNorm
  el_attn :: MultiHeadAttention
  el_ff :: FeedForward
  el_dropout_1 :: Dropout
  el_dropout_2 :: Dropout

definition EncoderLayer_init :: "nat \<Rightarrow> nat \<Rightarrow> nat \<Rightarrow> nat \<Rightarrow> real \<Rightarrow> EncoderLayer M" where
  "EncoderLayer_init heads d_model context_window pred_window dropout =
     bindM (MultiHeadAttention_init heads d_model context_window pred_window None dropout None) (\<lambda>a.
     bindM (FeedForward_init d_model (1 / 10)) (\<lambda>f.
     bindM (liftE (Dropout_init dropout)) (\<lambda>d1.
     bindM (liftE (Dropout_init dropout)) (\<lambda>d2.
     returnM \<lparr>el_d_model = d_model, el_heads = heads,
              el_norm_1 = LayerNorm_init d_model, el_norm_2 = LayerNorm_init d_model,
              el_attn = a, el_ff = f, el_dropout_1 = d1, el_dropout_2 = d2\<rparr>))))"

definition EncoderLayer_forward :: "EncoderLayer \<Rightarrow> real tensor \<Rightarrow> real tensor M" where
  "EncoderLayer_forward m x =
     bindM (liftE (LayerNorm_forward (el_norm_1 m) x)) (\<lambda>x2.
     bindM (liftE (MultiHeadAttention_forward (el_attn m) x2 x2 x2)) (\<lambda>a.
     bindM (Dropout_forward (el_dropout_1 m) a) (\<lambda>a.
     bindM (liftE (add_t x a)) (\<lambda>x.
     bindM (liftE (LayerNorm_forward (el_norm_2 m) x)) (\<lambda>x2.
     bindM (FeedForward_forward (el_ff m) x2) (\<lambda>f.
     bindM (Dropout_forward (el_dropout_2 m) f) (\<lambda>f.
     liftE (add_t x f))))))))"

text \<open>\<^verbatim>\<open>get_clones\<close>: N deep copies of the module.\<close>

definition get_clones :: "'m \<Rightarrow> nat \<Rightarrow> 'm list" where
  "get_clones md N = map (\<lambda>i. md) [0..<N]"

text \<open>
  \<^verbatim>\<open>for i in range(N): x = layers[i](x)\<close>, over the list of indices; an index the
  module list does not have raises.
\<close>

fun run_layers :: "('m \<Rightarrow> real tensor \<Rightarrow> real tensor M) \<Rightarrow> 'm list \<Rightarrow> nat list \<Rightarrow> real tensor \<Rightarrow> real tensor M" where
  "run_layers f ls [] x = returnM x"
| "run_layers f ls (i # is) x =
     (if i < length ls then bindM (f (ls ! i) x) (run_layers f ls is)
      else liftE (Inl ModuleIndexError))"

record Encoder =
  enc_N :: nat
  enc_pe :: PositionalEncoding
  dynamiclayers :: "EncoderLayer list"
  enc_norm :: LayerNorm

definition Encoder_init :: "nat \<Rightarrow> nat \<Rightarrow> nat \<Rightarrow> nat \<Rightarrow> nat \<Rightarrow> nat \<Rightarrow> real \<Rightarrow> Encoder M" where
  "Encoder_init N pe_window heads d_model context_window pred_window dropout =
     bindM (EncoderLayer_init heads d_model context_window pred_window dropout) (\<lambda>l.
     returnM \<lparr>enc_N = N, enc_pe = PositionalEncoding_init pe_window d_model,
              dynamiclayers = get_clones l N, enc_norm = LayerNorm_init d_model\<rparr>)"

definition Encoder_forward :: "Encoder \<Rightarrow> real tensor \<Rightarrow> real tensor M" where
  "Encoder_forward m x =
     bindM (liftE (PositionalEncoding_forward (enc_pe m) x)) (\<lambda>x.
     bindM (run_layers EncoderLayer_forward (dynamiclayers m) [0..<enc_N m] x) (\<lambda>x.
     liftE (LayerNorm_forward (enc_norm m) x)))"

subsection \<open>Decoder\<close>

record DecoderLayer =
  dl_d_model :: nat
  dl_heads :: nat
  dl_norm_1 :: LayerNorm
  dl_norm_2 :: LayerNorm
  dl_norm_3 :: LayerNorm
  attn_1 :: MultiHeadAttention
  attn_2 :: MultiHeadAttention
  dl_ff :: FeedForward
  dl_dropout_1 :: Dropout
  dl_dropout_2 :: Dropout
  dl_dropout_3 :: Dropout

definition DecoderLayer_init ::
  "nat \<Rightarrow> nat \<Rightarrow> nat \<Rightarrow> nat \<Rightarrow> 8 word tensor option \<Rightarrow> real \<Rightarrow> DecoderLayer M" where
  "DecoderLayer_init heads d_model context_window pred_window first_mask dropout =
     bindM (MultiHeadAttention_init heads d_model context_window pred_window (Some False)
              dropout first_mask) (\<lambda>a1.
     bindM (MultiHeadAttention_init heads d_model context_window pred_window (Some False)
              dropout None) (\<lambda>a2.
     bindM (FeedForward_init d_model (1 / 10)) (\<lambda>f.
     bindM (liftE (Dropout_init dropout)) (\<lambda>d1.
     bindM (liftE (Dropout_init dropout)) (\<lambda>d2.
     bindM (liftE (Dropout_init dropout)) (\<lambda>d3.
     returnM \<lparr>dl_d_model = d_model, dl_heads = heads,
              dl_norm_1 = LayerNorm_init d_model, dl_norm_2 = LayerNorm_init d_model,
              dl_norm_3 = LayerNorm_init d_model,
              attn_1 = a1, attn_2 = a2, dl_ff = f,
              dl_dropout_1 = d1, dl_dropout_2 = d2, dl_dropout_3 = d3\<rparr>))))))"

definition DecoderLayer_forward :: "DecoderLayer \<Rightarrow> real tensor \<Rightarrow> real tensor \<Rightarrow> real tensor M" where
  "DecoderLayer_forward m x enc_out =
     bindM (liftE (LayerNorm_forward (dl_norm_1 m) x)) (\<lambda>x2.
     bindM (liftE (MultiHeadAttention_forward (attn_1 m) x2 x2 x2)) (\<lambda>a.
     bindM (Dropout_forward (dl_dropout_1 m) a) (\<lambda>a.
     bindM (liftE (add_t x a)) (\<lambda>x.
     bindM (liftE (LayerNorm_forward (dl_norm_2 m) x)) (\<lambda>x2.
     bindM (liftE (MultiHeadAttention_forward (attn_2 m) x2 enc_out enc_out)) (\<lambda>a.
     bindM (Dropout_forward (dl_dropout_2 m) a) (\<lambda>a.
     bindM (liftE (add_t x a)) (\<lambda>x.
     bindM (liftE (LayerNorm_forward (dl_norm_3 m) x)) (\<lambda>x2.
     bindM (FeedForward_forward (dl_ff m) x2) (\<lambda>f.
     bindM (Dropout_forward (dl_dropout_3 m) f) (\<lambda>f.
     liftE (add_t x f))))))))))))"

record Decoder =
  dec_N :: nat
  dec_pe :: PositionalEncoding
  decoderlayers :: "DecoderLayer list"
  dec_norm :: LayerNorm

definition Decoder_init ::
  "nat \<Rightarrow> nat \<Rightarrow> nat \<Rightarrow> nat \<Rightarrow> nat \<Rightarrow> nat \<Rightarrow> 8 word tensor option \<Rightarrow> real \<Rightarrow> Decoder M" where
  "Decoder_init N pe_window heads d_model context_window pred_window first_mask dropout =
     bindM (DecoderLayer_init heads d_model context_window pred_window first_mask dropout) (\<lambda>l.
     returnM \<lparr>dec_N = N, dec_pe = PositionalEncoding_init pe_window d_model,
              decoderlayers = get_clones l N, dec_norm = LayerNorm_init d_model\<rparr>)"

definition Decoder_forward :: "Decoder \<Rightarrow> real tensor \<Rightarrow> real tensor \<Rightarrow> real tensor M" where
  "Decoder_forward m x enc_out =
     bindM (liftE (PositionalEncoding_forward (dec_pe m) x)) (\<lambda>x.
     bindM (run_layers (\<lambda>l x. DecoderLayer_forward l x enc_out) (decoderlayers m) [0..<dec_N m] x) (\<lambda>x.
     liftE (LayerNorm_forward (dec_norm m) x)))"

subsection \<open>Ml4fTransformer\<close>

record Ml4fTransformer =
  d_model_d :: nat
  d_model_e :: nat
  context_window :: nat
  pred_window :: nat
  dynamicencode :: Encoder
  learn :: "layer list"
  decoder :: Decoder
  map_m :: "layer list"

definition Ml4fTransformer_init ::
  "string \<Rightarrow> nat \<Rightarrow> nat \<Rightarrow> nat \<Rightarrow> nat \<Rightarrow> 8 word tensor option \<Rightarrow> real \<Rightarrow> nat \<Rightarrow> nat \<Rightarrow> nat
     \<Rightarrow> Ml4fTransformer M" where
  "Ml4fTransformer_init experiment d_e d_d N heads first_mask dropout cw pw pe_window =
     bindM (Encoder_init N pe_window heads d_e cw pw dropout) (\<lambda>enc.
     bindM (Linear_init (cw * d_e) (pw * d_d) True) (\<lambda>ll.
     bindM (liftE (Dropout_init dropout)) (\<lambda>ld.
     bindM (Decoder_init N pe_window heads d_d cw pw first_mask dropout) (\<lambda>dec.
     bindM (Linear_init pw pw True) (\<lambda>ml.
     bindM (liftE (Dropout_init dropout)) (\<lambda>md.
     returnM \<lparr>d_model_d = d_d, d_model_e = d_e, context_window = cw, pred_window = pw,
              dynamicencode = enc, learn = [Lin ll, ReLU, Drop ld], decoder = dec,
              map_m = (if experiment = ''return'' then [Lin ml, ReLU, Drop md]
                       else [Lin ml, ReLU, Drop md, Sigmoid])\<rparr>))))))"

text \<open>
  The default \<^verbatim>\<open>first_mask = create_mask(5, 5)\<close> is evaluated once, when the class
  is defined; every construction that leaves the argument out receives that value.
\<close>

definition default_first_mask :: "error + 8 word tensor" where
  "default_first_mask = create_mask 5 5"

definition Ml4fTransformer_init_default_mask ::
  "string \<Rightarrow> nat \<Rightarrow> nat \<Rightarrow> nat \<Rightarrow> nat \<Rightarrow> real \<Rightarrow> nat \<Rightarrow> nat \<Rightarrow> nat \<Rightarrow> Ml4fTransformer M" where
  "Ml4fTransformer_init_default_mask experiment d_e d_d N heads dropout cw pw pe_window =
     bindM (liftE default_first_mask) (\<lambda>m.
     Ml4fTransformer_init experiment d_e d_d N heads (Some m) dropout cw pw pe_window)"

definition Ml4fTransformer_forward :: "Ml4fTransformer \<Rightarrow> real tensor \<Rightarrow> real tensor \<Rightarrow> real tensor M" where
  "Ml4fTransformer_forward m x y =
     bindM (liftE (size_t x 0)) (\<lambda>b.
     bindM (Encoder_forward (dynamicencode m) x) (\<lambda>enc_output.
     bindM (liftE (view enc_output [Dim b, Infer])) (\<lambda>enc_output.
     bindM (Sequential_forward (learn m) enc_output) (\<lambda>enc_map.
     bindM (liftE (view enc_map [Infer, Dim (pred_window m), Dim (d_model_d m)])) (\<lambda>enc_map.
     bindM (Decoder_forward (decoder m) y enc_map) (\<lambda>dec_output.
     bindM (liftE (view dec_output [Dim b, Dim (pred_window m)])) (\<lambda>dec_output.
     Sequential_forward (map_m m) dec_output)))))))"

text \<open>The closed form that the specification gives for the entries of the table.\<close>

definition pe_entry :: "nat \<Rightarrow> nat \<Rightarrow> nat \<Rightarrow> real" where
  "pe_entry d pos i =
     (if even i then sin (real pos / (10000 powr (real (2 * i) / real d)))
      else cos (real pos / (10000 powr (real (2 * (i + 1)) / real d))))"

text \<open>
  The reference the specification compares with: single-head dot-product
  attention without the 1/sqrt(d) factor.  For the query rows \<open>Q\<close>, key rows \<open>K\<close> and
  value rows \<open>V\<close>, the score of query \<open>i\<close> and key \<open>j\<close> is their dot product, or -1e9
  where the mask forbids the pair; the weights are the softmax of the scores
  over the keys; the output row is the weighted sum of the value rows.
\<close>

definition attention_ref ::
  "nat \<Rightarrow> nat \<Rightarrow> (nat \<Rightarrow> nat \<Rightarrow> real) \<Rightarrow> (nat \<Rightarrow> nat \<Rightarrow> real) \<Rightarrow> (nat \<Rightarrow> nat \<Rightarrow> real)
     \<Rightarrow> (nat \<Rightarrow> nat \<Rightarrow> bool) \<Rightarrow> nat \<Rightarrow> nat \<Rightarrow> real" where
  "attention_ref sk d Q K V masked i c =
     (let score = (\<lambda>i j. if masked i j then - 1000000000 else (\<Sum>e = 0..<d. Q i e * K j e))
      in (\<Sum>j = 0..<sk. exp (score i j) / (\<Sum>j' = 0..<sk. exp (score i j')) * V j c))"

section \<open>What the constructors establish\<close>

text \<open>
  Training changes the values of the parameters and nothing else.  The
  predicates below say what a constructor fixes for the lifetime of a module:
  the shapes of its parameters, its hyperparameters and its submodules.
\<close>

definition Linear_ok :: "nat \<Rightarrow> nat \<Rightarrow> bool \<Rightarrow> Linear \<Rightarrow> bool" where
  "Linear_ok in_features out_features has_bias l =
     (shape (weight l) = [out_features, in_features] \<and> wf (weight l)
      \<and> (case bias l of None \<Rightarrow> \<not> has_bias
          | Some bt \<Rightarrow> has_bias \<and> shape bt = [out_features] \<and> wf bt))"

definition LayerNorm_ok :: "nat \<Rightarrow> LayerNorm \<Rightarrow> bool" where
  "LayerNorm_ok d m =
     (normalized_shape m = d \<and> shape (ln_weight m) = [d] \<and> wf (ln_weight m)
      \<and> shape (ln_bias m) = [d] \<and> wf (ln_bias m))"

definition Dropout_ok :: "Dropout \<Rightarrow> bool" where
  "Dropout_ok d = (0 \<le> drop_p d \<and> drop_p d \<le> 1)"

text \<open>A mask that fits attention scores of \<open>sq\<close> queries and \<open>sk\<close> keys, or no mask.\<close>

definition mask_ok :: "nat \<Rightarrow> nat \<Rightarrow> 8 word tensor option \<Rightarrow> bool" where
  "mask_ok sq sk msk = (case msk of None \<Rightarrow> True | Some mk \<Rightarrow> shape mk = [1, sq, sk] \<and> wf mk)"

definition MultiHeadAttention_ok :: "nat \<Rightarrow> nat \<Rightarrow> 8 word tensor option \<Rightarrow> MultiHeadAttention \<Rightarrow> bool" where
  "MultiHeadAttention_ok heads d_model msk m =
     (mha_h m = heads \<and> mha_d_model m = d_model \<and> mha_mask m = msk
      \<and> Dropout_ok (mha_dropout m)
      \<and> Linear_ok d_model (heads * d_model) False (q_linear m)
      \<and> Linear_ok d_model (heads * d_model) False (v_linear m)
      \<and> Linear_ok d_model (heads * d_model) False (k_linear m)
      \<and> Linear_ok (heads * d_model) d_model True (unifyheads m))"

text \<open>The layers of a \<^verbatim>\<open>nn.Sequential\<close>, one predicate for each position.\<close>

fun Lin_ok :: "nat \<Rightarrow> nat \<Rightarrow> layer \<Rightarrow> bool" where
  "Lin_ok i out (Lin l) = Linear_ok i out True l"
| "Lin_ok i out _ = False"

fun is_ReLU :: "layer \<Rightarrow> bool" where
  "is_ReLU ReLU = True"
| "is_ReLU _ = False"

fun Drop_ok :: "layer \<Rightarrow> bool" where
  "Drop_ok (Drop d) = Dropout_ok d"
| "Drop_ok _ = False"

fun is_Sigmoid :: "layer \<Rightarrow> bool" where
  "is_Sigmoid Sigmoid = True"
| "is_Sigmoid _ = False"

definition layers_ok :: "(layer \<Rightarrow> bool) list \<Rightarrow> layer list \<Rightarrow> bool" where
  "layers_ok ps ls = list_all2 (\<lambda>p l. p l) ps ls"

definition FeedForward_ok :: "nat \<Rightarrow> FeedForward \<Rightarrow> bool" where
  "FeedForward_ok d_model m =
     layers_ok [Lin_ok d_model (10 * d_model), is_ReLU, Drop_ok, Lin_ok (10 * d_model) d_model]
       (ff_linear m)"

definition EncoderLayer_ok :: "nat \<Rightarrow> nat \<Rightarrow> EncoderLayer \<Rightarrow> bool" where
  "EncoderLayer_ok heads d_model m =
     (LayerNorm_ok d_model (el_norm_1 m) \<and> LayerNorm_ok d_model (el_norm_2 m)
      \<and> MultiHeadAttention_ok heads d_model None (el_attn m)
      \<and> FeedForward_ok d_model (el_ff m)
      \<and> Dropout_ok (el_dropout_1 m) \<and> Dropout_ok (el_dropout_2 m))"

definition Encoder_ok :: "nat \<Rightarrow> nat \<Rightarrow> nat \<Rightarrow> nat \<Rightarrow> Encoder \<Rightarrow> bool" where
  "Encoder_ok N pe_window heads d_model m =
     (enc_N m = N \<and> enc_pe m = PositionalEncoding_init pe_window d_model
      \<and> length (dynamiclayers m) = N
      \<and> list_all (EncoderLayer_ok heads d_model) (dynamiclayers m)
      \<and> LayerNorm_ok d_model (enc_norm m))"

definition DecoderLayer_ok :: "nat \<Rightarrow> nat \<Rightarrow> 8 word tensor option \<Rightarrow> DecoderLayer \<Rightarrow> bool" where
  "DecoderLayer_ok heads d_model first_mask m =
     (LayerNorm_ok d_model (dl_norm_1 m) \<and> LayerNorm_ok d_model (dl_norm_2 m)
      \<and> LayerNorm_ok d_model (dl_norm_3 m)
      \<and> MultiHeadAttention_ok heads d_model first_mask (attn_1 m)
      \<and> MultiHeadAttention_ok heads d_model None (attn_2 m)
      \<and> FeedForward_ok d_model (dl_ff m)
      \<and> Dropout_ok (dl_dropout_1 m) \<and> Dropout_ok (dl_dropout_2 m)
      \<and> Dropout_ok (dl_dropout_3 m))"

definition Decoder_ok :: "nat \<Rightarrow> nat \<Rightarrow> nat \<Rightarrow> nat \<Rightarrow> 8 word tensor option \<Rightarrow> Decoder \<Rightarrow> bool" where
  "Decoder_ok N pe_window heads d_model first_mask m =
     (dec_N m = N \<and> dec_pe m = PositionalEncoding_init pe_window d_model
      \<and> length (decoderlayers m) = N
      \<and> list_all (DecoderLayer_ok heads d_model first_mask) (decoderlayers m)
      \<and> LayerNorm_ok d_model (dec_norm m))"

definition Ml4fTransformer_ok ::
  "string \<Rightarrow> nat \<Rightarrow> nat \<Rightarrow> nat \<Rightarrow> nat \<Rightarrow> 8 word tensor option \<Rightarrow> nat \<Rightarrow> nat \<Rightarrow> nat
     \<Rightarrow> Ml4fTransformer \<Rightarrow> bool" where
  "Ml4fTransformer_ok experiment d_e d_d N heads first_mask cw pw pe_window m =
     (d_model_d m = d_d \<and> d_model_e m = d_e \<and> context_window m = cw \<and> pred_window m = pw
      \<and> Encoder_ok N pe_window heads d_e (dynamicencode m)
      \<and> layers_ok [Lin_ok (cw * d_e) (pw * d_d), is_ReLU, Drop_ok] (learn m)
      \<and> Decoder_ok N pe_window heads d_d first_mask (decoder m)
      \<and> layers_ok (if experiment = ''return'' then [Lin_ok pw pw, is_ReLU, Drop_ok]
                    else [Lin_ok pw pw, is_ReLU, Drop_ok, is_Sigmoid]) (map_m m))"

text \<open>
  A computation returns, whatever the state of the generator, a value with
  property \<open>P\<close>; or it fails, whatever the state of the generator, with error \<open>e\<close>.
\<close>

definition returnsM :: "'a M \<Rightarrow> ('a \<Rightarrow> bool) \<Rightarrow> bool" where
  "returnsM f P = (\<forall>g. case f g of Inl e \<Rightarrow> False | Inr (r, g') \<Rightarrow> P r)"

definition failsM :: "'a M \<Rightarrow> error \<Rightarrow> bool" where
  "failsM f e = (\<forall>g. f g = Inl e)"


text \<open>
  The forward pass of MultiHeadAttention as the specification words it: the
  result of the head-unifying linear map goes through the module's dropout.
\<close>

definition MultiHeadAttention_forward_claimed ::
  "MultiHeadAttention \<Rightarrow> real tensor \<Rightarrow> real tensor \<Rightarrow> real tensor \<Rightarrow> real tensor M" where
  "MultiHeadAttention_forward_claimed m q k v =
     bindM (liftE (MultiHeadAttention_forward m q k v)) (Dropout_forward (mha_dropout m))"

text \<open>
  An attention module with one head of width one, all weights 1, the bias of the
  unifying map 1, and dropout probability 1 in training mode; and an input.
\<close>

definition mha_example :: MultiHeadAttention where
  "mha_example =
     \<lparr>mha_h = 1, mha_dropout = \<lparr>drop_p = 1, training = True\<rparr>, mha_mask = None,
      mha_d_model = 1, mha_pred_window = 1, mha_context_window = 1, mha_first = None,
      q_linear = \<lparr>weight = \<lparr>shape = [1, 1], data = [1]\<rparr>, bias = None\<rparr>,
      v_linear = \<lparr>weight = \<lparr>shape = [1, 1], data = [1]\<rparr>, bias = None\<rparr>,
      k_linear = \<lparr>weight = \<lparr>shape = [1, 1], data = [1]\<rparr>, bias = None\<rparr>,
      unifyheads = \<lparr>weight = \<lparr>shape = [1, 1], data = [1]\<rparr>,
                    bias = Some \<lparr>shape = [1], data = [1]\<rparr>\<rparr>\<rparr>"

definition x_example :: "real tensor" where
  "x_example = \<lparr>shape = [1, 1, 1], data = [2]\<rparr>"

text \<open>The value of \<^verbatim>\<open>create_mask(5, 5)\<close>.\<close>

definition mask_5_5 :: "8 word tensor" where
  "mask_5_5 = \<lparr>shape = [1, 5, 5],
     data = [1, 0, 0, 0, 0,
             1, 1, 0, 0, 0,
             1, 1, 1, 0, 0,
             1, 1, 1, 1, 0,
             1, 1, 1, 1, 1]\<rparr>"

section \<open>Index arithmetic\<close>

lemma bindE_Inr [simp]: "bindE (Inr v) f = f v"
  by (simp add: bindE_def)

lemma bindE_Inl [simp]: "bindE (Inl e) f = Inl e"
  by (simp add: bindE_def)

lemma bindE_eq_Inr:
  "bindE m f = Inr r \<longleftrightarrow> (\<exists>v. m = Inr v \<and> f v = Inr r)"
  by (cases m) simp_all

lemma valid_index_Nil [simp]: "valid_index [] idx \<longleftrightarrow> idx = []"
  by (simp add: valid_index_def)

lemma valid_index_Cons:
  "valid_index (d # ds) idx \<longleftrightarrow> (\<exists>i is. idx = i # is \<and> i < d \<and> valid_index ds is)"
  by (cases idx) (simp_all add: valid_index_def)

lemma valid_index_Cons_Cons [simp]:
  "valid_index (d # ds) (i # is) \<longleftrightarrow> i < d \<and> valid_index ds is"
  by (simp add: valid_index_def)

lemma valid_index_length: "valid_index shp idx \<Longrightarrow> length idx = length shp"
  by (simp add: valid_index_def list_all2_lengthD)

lemma valid_index_nth: "valid_index shp idx \<Longrightarrow> k < length shp \<Longrightarrow> idx ! k < shp ! k"
  by (simp add: valid_index_def list_all2_nthD2)

lemma valid_index_iff:
  "valid_index shp idx \<longleftrightarrow> length idx = length shp \<and> (\<forall>k < length shp. idx ! k < shp ! k)"
  by (auto simp: valid_index_def list_all2_conv_all_nth)

lemma ravel_less: "valid_index shp idx \<Longrightarrow> ravel shp idx < prod_list shp"
proof (induction shp arbitrary: idx)
  case Nil
  then show ?case by simp
next
  case (Cons d ds)
  then obtain i "is" where idx: "idx = i # is" and i: "i < d" and v: "valid_index ds is"
    by (auto simp: valid_index_Cons)
  have r: "ravel ds is < prod_list ds" using Cons.IH [OF v] .
  have "i * prod_list ds + ravel ds is < i * prod_list ds + prod_list ds"
    using r by simp
  also have "\<dots> = Suc i * prod_list ds" by simp
  also have "\<dots> \<le> d * prod_list ds" using i by (intro mult_le_mono1) simp
  finally show ?case by (simp add: idx)
qed

lemma unravel_ravel: "valid_index shp idx \<Longrightarrow> unravel shp (ravel shp idx) = idx"
proof (induction shp arbitrary: idx)
  case Nil
  then show ?case by simp
next
  case (Cons d ds)
  then obtain i "is" where idx: "idx = i # is" and i: "i < d" and v: "valid_index ds is"
    by (auto simp: valid_index_Cons)
  have r: "ravel ds is < prod_list ds" using ravel_less [OF v] .
  show ?case using Cons.IH [OF v] r by (simp add: idx)
qed

lemma valid_unravel: "n < prod_list shp \<Longrightarrow> valid_index shp (unravel shp n)"
proof (induction shp arbitrary: n)
  case Nil
  then show ?case by simp
next
  case (Cons d ds)
  have pos: "0 < prod_list ds" using Cons.prems by (cases "prod_list ds") simp_all
  have "n div prod_list ds < d"
    using Cons.prems pos by (simp add: less_mult_imp_div_less mult.commute)
  moreover have "valid_index ds (unravel ds (n mod prod_list ds))"
    using Cons.IH pos by simp
  ultimately show ?case by simp
qed

lemma ravel_unravel: "n < prod_list shp \<Longrightarrow> ravel shp (unravel shp n) = n"
proof (induction shp arbitrary: n)
  case Nil
  then show ?case by simp
next
  case (Cons d ds)
  have pos: "0 < prod_list ds" using Cons.prems by (cases "prod_list ds") simp_all
  show ?case using Cons.IH [of "n mod prod_list ds"] pos by simp
qed

lemma shape_tabulate [simp]: "shape (tabulate shp f) = shp"
  by (simp add: tabulate_def)

lemma wf_tabulate [simp]: "wf (tabulate shp f)"
  by (simp add: tabulate_def wf_def)

lemma length_data_tabulate [simp]: "length (data (tabulate shp f)) = prod_list shp"
  by (simp add: tabulate_def)

lemma elem_tabulate: "valid_index shp idx \<Longrightarrow> elem (tabulate shp f) idx = f idx"
  using ravel_less [of shp idx] by (simp add: elem_def tabulate_def unravel_ravel)

lemma data_tabulate_nth:
  "n < prod_list shp \<Longrightarrow> data (tabulate shp f) ! n = f (unravel shp n)"
  by (simp add: tabulate_def)

lemma set_data_tabulate:
  "set (data (tabulate shp f)) = f ` {idx. valid_index shp idx}"
proof -
  have "unravel shp ` {0..<prod_list shp} = {idx. valid_index shp idx}"
  proof (intro equalityI subsetI)
    fix idx assume "idx \<in> unravel shp ` {0..<prod_list shp}"
    then show "idx \<in> {idx. valid_index shp idx}" by (auto intro: valid_unravel)
  next
    fix idx assume "idx \<in> {idx. valid_index shp idx}"
    then have v: "valid_index shp idx" by simp
    have "idx = unravel shp (ravel shp idx)" using unravel_ravel [OF v] by simp
    then show "idx \<in> unravel shp ` {0..<prod_list shp}"
      using ravel_less [OF v] by (metis atLeastLessThan_iff imageI zero_le)
  qed
  then have "f ` unravel shp ` {0..<prod_list shp} = f ` {idx. valid_index shp idx}"
    by simp
  then show ?thesis by (simp add: tabulate_def image_image)
qed


lemma tabulate_cong:
  "(\<And>idx. valid_index shp idx \<Longrightarrow> f idx = g idx) \<Longrightarrow> tabulate shp f = tabulate shp g"
  by (simp add: tabulate_def valid_unravel)



lemma valid_index3:
  "valid_index [a, b, c] idx \<longleftrightarrow> (\<exists>i j k. idx = [i, j, k] \<and> i < a \<and> j < b \<and> k < c)"
  by (auto simp: valid_index_Cons)

lemma valid_index4:
  "valid_index [a, b, c, d] idx \<longleftrightarrow>
     (\<exists>i j k l. idx = [i, j, k, l] \<and> i < a \<and> j < b \<and> k < c \<and> l < d)"
  by (auto simp: valid_index_Cons)

lemma swap_1_2_3 [simp]: "swap (Suc 0) 2 [a, b, c] = [a, c, b]"
  by (simp add: swap_def numeral_2_eq_2)

lemma swap_1_2_4 [simp]: "swap (Suc 0) 2 [a, b, c, d] = [a, c, b, d]"
  by (simp add: swap_def numeral_2_eq_2)

lemma nth_2_Cons [simp]: "(a # b # c # xs) ! 2 = c"
  by (simp add: numeral_2_eq_2)

lemma update_2_Cons [simp]: "(a # b # c # xs)[2 := v] = a # b # v # xs"
  by (simp add: numeral_2_eq_2)

lemma shape_astype [simp]: "shape (astype_uint8 t) = shape t"
  by (simp add: astype_uint8_def)

lemma astype_tabulate:
  "astype_uint8 (tabulate shp f) = tabulate shp (\<lambda>idx. word_of_int \<lfloor>f idx\<rfloor>)"
  by (simp add: astype_uint8_def tabulate_def)

section \<open>The mask builder: shape and entries\<close>

lemma create_mask_eq:
  "create_mask x y = Inr (tabulate [1, y, x] (\<lambda>idx. if idx ! 2 \<le> idx ! 1 then 1 else 0))"
proof -
  have tri: "np_triu (ones [1, x + 1, y + 1]) 1 =
      Inr (tabulate [1, x + 1, y + 1] (\<lambda>idx. if idx ! 1 < idx ! 2 then 1 else 0))"
    unfolding np_triu_def ones_def
    by (auto simp: Let_def elem_tabulate valid_index3 intro!: tabulate_cong)
  have rows: "slice (tabulate [1, x + 1, y + 1] f) 1 None (Some (- 1)) =
      Inr (tabulate [1, x, y + 1] f)" for f :: "nat list \<Rightarrow> 8 word"
    unfolding slice_def
    by (auto simp: Let_def slice_start_def slice_stop_def slice_bound_def elem_tabulate
        valid_index3 intro!: tabulate_cong)
  have cols: "slice (tabulate [1, x, y + 1] f) 2 (Some 1) None =
      Inr (tabulate [1, x, y] (\<lambda>idx. f (idx[2 := idx ! 2 + 1])))" for f :: "nat list \<Rightarrow> 8 word"
    unfolding slice_def
    by (auto simp: Let_def slice_start_def slice_stop_def slice_bound_def elem_tabulate
        valid_index3 intro!: tabulate_cong)
  have tr: "transpose_t (tabulate [1, x, y] f) 1 2 =
      Inr (tabulate [1, y, x] (\<lambda>idx. f (swap 1 2 idx)))" for f :: "nat list \<Rightarrow> 8 word"
    unfolding transpose_t_def
    by (auto simp: elem_tabulate valid_index3 intro!: tabulate_cong)
  show ?thesis
    unfolding create_mask_def tri Let_def astype_tabulate bindE_Inr rows cols tr
    by (auto simp: valid_index3 intro!: tabulate_cong)
qed

lemma upt_25:
  "[0..<25] = [0, 1, 2, 3, 4, 5, 6, 7, 8, 9, 10, 11, 12, 13, 14, 15, 16, 17, 18, 19, 20,
               21, 22, 23, 24 :: nat]"
  by code_simp

lemma create_mask_5_5:
  "create_mask 5 5 = Inr \<lparr>shape = [1, 5, 5],
     data = [1, 0, 0, 0, 0,
             1, 1, 0, 0, 0,
             1, 1, 1, 0, 0,
             1, 1, 1, 1, 0,
             1, 1, 1, 1, 1]\<rparr>"
  unfolding create_mask_eq by (simp add: tabulate_def upt_25)

text \<open>
  C3.  The mask \<open>create_mask P P\<close> has shape [1, P, P]; its entry at row \<open>i\<close> and
  key column \<open>j\<close> is 1 (permitted) when \<open>j \<le> i\<close> and 0 (forbidden) when \<open>i < j\<close>.
  For \<open>P = 5\<close> the 25 entries are the lower triangle with its diagonal.
\<close>

theorem create_mask_causal:
  "(\<forall>P i j. i < P \<longrightarrow> j < P \<longrightarrow>
      (\<exists>t. create_mask P P = Inr t \<and> shape t = [1, P, P]
           \<and> elem t [0, i, j] = (if j \<le> i then 1 else 0)))
   \<and> create_mask 5 5 = Inr \<lparr>shape = [1, 5, 5],
        data = [1, 0, 0, 0, 0,
                1, 1, 0, 0, 0,
                1, 1, 1, 0, 0,
                1, 1, 1, 1, 0,
                1, 1, 1, 1, 1]\<rparr>"
proof (intro conjI allI impI)
  fix P i j :: nat
  assume "i < P" "j < P"
  then show "\<exists>t. create_mask P P = Inr t \<and> shape t = [1, P, P]
           \<and> elem t [0, i, j] = (if j \<le> i then 1 else 0)"
    by (simp add: create_mask_eq elem_tabulate)
qed (rule create_mask_5_5)

theorem create_mask_causal_witness:
  "(2::nat) < 5 \<and> (3::nat) < 5
   \<and> (\<exists>t. create_mask 5 5 = Inr t \<and> shape t = [1, 5, 5] \<and> elem t [0, 2, 3] = 0)"
proof -
  have a: "\<forall>P i j. i < P \<longrightarrow> j < P \<longrightarrow>
      (\<exists>t. create_mask P P = Inr t \<and> shape t = [1, P, P]
           \<and> elem t [0, i, j] = (if j \<le> i then 1 else 0))"
    using create_mask_causal by (rule conjunct1)
  have "\<exists>t. create_mask 5 5 = Inr t \<and> shape t = [1, 5, 5]
           \<and> elem t [0, 2, 3] = (if (3::nat) \<le> 2 then 1 else 0)"
    by (rule a [rule_format]) simp_all
  then show ?thesis by simp
qed

text \<open>
  C4 (as the code has it).  \<open>create_mask x y\<close> returns a tensor of zeros and ones
  of shape [1, y, x]: the second argument gives the rows, the first the columns.
\<close>

theorem create_mask_shape:
  "\<exists>t. create_mask x y = Inr t \<and> shape t = [1, y, x] \<and> wf t \<and> set (data t) \<subseteq> {0, 1}"
  by (auto simp: create_mask_eq set_data_tabulate)

text \<open>With arguments 5 and 15 the shape is [1, 15, 5], not [1, 5, 5].\<close>

theorem create_mask_shape_counterexample:
  "map_sum id shape (create_mask 5 15) = Inr [1, 15, 5]"
  by (simp add: create_mask_eq)


section \<open>PositionalEncoding\<close>

lemma ravel_inj:
  "valid_index s i \<Longrightarrow> valid_index s j \<Longrightarrow> ravel s i = ravel s j \<Longrightarrow> i = j"
  by (metis unravel_ravel)

lemma shape_set_elem [simp]: "shape (set_elem t idx v) = shape t"
  by (simp add: set_elem_def)

lemma wf_set_elem [simp]: "wf (set_elem t idx v) = wf t"
  by (simp add: set_elem_def wf_def)

lemma elem_set_elem:
  assumes "wf t" "valid_index (shape t) idx" "valid_index (shape t) idx'"
  shows "elem (set_elem t idx v) idx' = (if idx' = idx then v else elem t idx')"
proof -
  have "ravel (shape t) idx < length (data t)"
    using assms ravel_less [of "shape t" idx] by (simp add: wf_def)
  moreover have "ravel (shape t) idx \<noteq> ravel (shape t) idx'" if "idx' \<noteq> idx"
    using assms that ravel_inj [of "shape t" idx' idx] by auto
  ultimately show ?thesis
    by (simp add: elem_def set_elem_def)
qed

lemma set_py_range_even: "set (py_range 0 d 2) = {c. c < d \<and> even c}"
proof -
  have "c \<in> (\<lambda>k. k * 2) ` {0..<(d + 1) div 2} \<longleftrightarrow> c < d \<and> even c" for c
  proof
    assume "c \<in> (\<lambda>k. k * 2) ` {0..<(d + 1) div 2}"
    then obtain k where "c = k * 2" "k < (d + 1) div 2" by auto
    then show "c < d \<and> even c" by auto
  next
    assume a: "c < d \<and> even c"
    then obtain k where k: "c = 2 * k" by (auto elim: evenE)
    with a have "k < (d + 1) div 2" by auto
    with k show "c \<in> (\<lambda>k. k * 2) ` {0..<(d + 1) div 2}" by auto
  qed
  then show ?thesis by (auto simp: py_range_def)
qed

lemma set_py_range_odd: "set (py_range (Suc 0) d 2) = {c. c < d \<and> odd c}"
proof -
  have "c \<in> (\<lambda>k. Suc (k * 2)) ` {0..<(d - 1 + 1) div 2} \<longleftrightarrow> c < d \<and> odd c" for c
  proof
    assume "c \<in> (\<lambda>k. Suc (k * 2)) ` {0..<(d - 1 + 1) div 2}"
    then obtain k where "c = Suc (k * 2)" "k < (d - 1 + 1) div 2" by auto
    then show "c < d \<and> odd c" by (cases d) auto
  next
    assume a: "c < d \<and> odd c"
    then obtain k where k: "c = 2 * k + 1" by (auto elim: oddE)
    with a have "k < (d - 1 + 1) div 2" by auto
    with k show "c \<in> (\<lambda>k. Suc (k * 2)) ` {0..<(d - 1 + 1) div 2}" by auto
  qed
  then show ?thesis by (auto simp: py_range_def)
qed

lemma fold_set_elem:
  assumes "wf t" "shape t = [w, d]" "pos < w" "\<forall>j \<in> set js. j < d"
  shows "wf (fold (\<lambda>i t. set_elem t [pos, i] (g i)) js t)
       \<and> shape (fold (\<lambda>i t. set_elem t [pos, i] (g i)) js t) = [w, d]
       \<and> (\<forall>p c. p < w \<longrightarrow> c < d \<longrightarrow>
            elem (fold (\<lambda>i t. set_elem t [pos, i] (g i)) js t) [p, c]
            = (if p = pos \<and> c \<in> set js then g c else elem t [p, c]))"
  using assms
proof (induction js arbitrary: t)
  case Nil
  then show ?case by simp
next
  case (Cons j js)
  let ?t = "set_elem t [pos, j] (g j)"
  have t: "wf ?t" "shape ?t = [w, d]" using Cons.prems by simp_all
  have e: "elem ?t [p, c] = (if [p, c] = [pos, j] then g j else elem t [p, c])"
    if "p < w" "c < d" for p c
    using Cons.prems that by (intro elem_set_elem) simp_all
  have ih: "wf (fold (\<lambda>i t. set_elem t [pos, i] (g i)) js ?t)
       \<and> shape (fold (\<lambda>i t. set_elem t [pos, i] (g i)) js ?t) = [w, d]
       \<and> (\<forall>p c. p < w \<longrightarrow> c < d \<longrightarrow>
            elem (fold (\<lambda>i t. set_elem t [pos, i] (g i)) js ?t) [p, c]
            = (if p = pos \<and> c \<in> set js then g c else elem ?t [p, c]))"
    using Cons.prems t by (intro Cons.IH) simp_all
  show ?case using ih e by auto
qed

lemma pe_row_props:
  assumes "wf t" "shape t = [w, d]" "pos < w"
  shows "wf (pe_row d pos t) \<and> shape (pe_row d pos t) = [w, d]
       \<and> (\<forall>p c. p < w \<longrightarrow> c < d \<longrightarrow>
            elem (pe_row d pos t) [p, c] = (if p = pos then pe_entry d pos c else elem t [p, c]))"
proof -
  let ?g1 = "\<lambda>i. sin (real pos / (10000 powr (real (2 * i) / real d)))"
  let ?g2 = "\<lambda>i. cos (real pos / (10000 powr (real (2 * (i + 1)) / real d)))"
  let ?t1 = "fold (\<lambda>i t. set_elem t [pos, i] (?g1 i)) (py_range 0 d 2) t"
  have 1: "wf ?t1 \<and> shape ?t1 = [w, d]
       \<and> (\<forall>p c. p < w \<longrightarrow> c < d \<longrightarrow>
            elem ?t1 [p, c] = (if p = pos \<and> c \<in> set (py_range 0 d 2) then ?g1 c else elem t [p, c]))"
    using assms by (intro fold_set_elem) (simp_all add: set_py_range_even)
  let ?t2 = "fold (\<lambda>i t. set_elem t [pos, i] (?g2 i)) (py_range 1 d 2) ?t1"
  have 2: "wf ?t2 \<and> shape ?t2 = [w, d]
       \<and> (\<forall>p c. p < w \<longrightarrow> c < d \<longrightarrow>
            elem ?t2 [p, c] = (if p = pos \<and> c \<in> set (py_range 1 d 2) then ?g2 c else elem ?t1 [p, c]))"
    using 1 assms by (intro fold_set_elem) (simp_all add: set_py_range_odd)
  have eq: "pe_row d pos t = ?t2" by (simp add: pe_row_def Let_def)
  show ?thesis
    unfolding eq using 1 2
    by (simp add: set_py_range_even set_py_range_odd pe_entry_def)
qed

lemma fold_pe_row:
  assumes "wf t" "shape t = [w, d]" "\<forall>p \<in> set ps. p < w"
  shows "wf (fold (pe_row d) ps t) \<and> shape (fold (pe_row d) ps t) = [w, d]
       \<and> (\<forall>p c. p < w \<longrightarrow> c < d \<longrightarrow>
            elem (fold (pe_row d) ps t) [p, c] = (if p \<in> set ps then pe_entry d p c else elem t [p, c]))"
  using assms
proof (induction ps arbitrary: t)
  case Nil
  then show ?case by simp
next
  case (Cons q ps)
  have r: "wf (pe_row d q t) \<and> shape (pe_row d q t) = [w, d]
       \<and> (\<forall>p c. p < w \<longrightarrow> c < d \<longrightarrow>
            elem (pe_row d q t) [p, c] = (if p = q then pe_entry d q c else elem t [p, c]))"
    using Cons.prems by (intro pe_row_props) simp_all
  have ih: "wf (fold (pe_row d) ps (pe_row d q t)) \<and> shape (fold (pe_row d) ps (pe_row d q t)) = [w, d]
       \<and> (\<forall>p c. p < w \<longrightarrow> c < d \<longrightarrow>
            elem (fold (pe_row d) ps (pe_row d q t)) [p, c]
              = (if p \<in> set ps then pe_entry d p c else elem (pe_row d q t) [p, c]))"
    using Cons.prems r by (intro Cons.IH) simp_all
  show ?case using ih r by auto
qed

lemma shape_unsqueeze0 [simp]: "shape (unsqueeze0 t) = 1 # shape t"
  by (simp add: unsqueeze0_def)

lemma wf_unsqueeze0 [simp]: "wf (unsqueeze0 t) = wf t"
  by (simp add: unsqueeze0_def wf_def)

lemma elem_unsqueeze0 [simp]: "elem (unsqueeze0 t) (0 # idx) = elem t idx"
  by (simp add: unsqueeze0_def elem_def)

lemma wf_zeros [simp]: "wf (zeros s)" and shape_zeros [simp]: "shape (zeros s) = s"
  by (simp_all add: zeros_def)

lemma PositionalEncoding_table:
  "wf (pe (PositionalEncoding_init w d)) \<and> shape (pe (PositionalEncoding_init w d)) = [1, w, d]
   \<and> (\<forall>p c. p < w \<longrightarrow> c < d \<longrightarrow> elem (pe (PositionalEncoding_init w d)) [0, p, c] = pe_entry d p c)"
  using fold_pe_row [of "zeros [w, d]" w d "[0..<w]"]
  by (simp add: PositionalEncoding_init_def)


lemma upt_2: "[0..<2] = [0, Suc 0]"
  by (simp add: numeral_2_eq_2)

lemma size_t_simps [simp]:
  "k < length (shape t) \<Longrightarrow> size_t t k = Inr (shape t ! k)"
  "length (shape t) \<le> k \<Longrightarrow> size_t t k = Inl DimOutOfRange"
  by (simp_all add: size_t_def)

lemma slice_stop_nat: "slice_stop n (Some (int k)) = min n k"
  by (simp add: slice_stop_def slice_bound_def)

lemma slice_table:
  assumes "shape t = [a, w, d]"
  shows "slice t (Suc 0) None (Some (int l)) =
           Inr (tabulate [a, min w l, d] (\<lambda>idx. elem t idx))"
proof -
  have "tabulate [a, min w l, d] (\<lambda>idx. elem t (idx[1 := idx ! 1 + 0])) =
        tabulate [a, min w l, d] (\<lambda>idx. elem t idx)"
    by (rule tabulate_cong) (auto simp: valid_index3)
  then show ?thesis
    using assms by (simp add: slice_def slice_stop_nat slice_start_def Let_def)
qed

lemma bidx3:
  "i < a \<Longrightarrow> j < b \<Longrightarrow> k < c \<Longrightarrow> bidx [a, b, c] [i, j, k] = [i, j, k]"
  "j < b \<Longrightarrow> k < c \<Longrightarrow> bidx [Suc 0, b, c] [i, j, k] = [0, j, k]"
  by (auto simp: bidx_def)

lemma broadcast_same3: "broadcast_shapes [a, b, c] [a, b, c] = Some [a, b, c]"
  by (simp add: broadcast_shapes_def)

lemma broadcast_one3: "broadcast_shapes [a, b, c] [Suc 0, b, c] = Some [a, b, c]"
  by (simp add: broadcast_shapes_def)

lemma PositionalEncoding_forward_add:
  assumes x: "shape x = [B, L, D]" and m: "shape (pe m) = [1, W, D]" and l: "L \<le> W"
  shows "PositionalEncoding_forward m x =
           Inr (tabulate [B, L, D] (\<lambda>idx. elem x idx + elem (pe m) (0 # tl idx)))"
proof -
  have min: "min W L = L" using l by simp
  have "tabulate [B, L, D]
          (\<lambda>idx. elem x (bidx [B, L, D] idx)
                + elem (tabulate [1, L, D] (elem (pe m))) (bidx [1, L, D] idx))
      = tabulate [B, L, D] (\<lambda>idx. elem x idx + elem (pe m) (0 # tl idx))"
    by (rule tabulate_cong) (auto simp: valid_index3 bidx3 elem_tabulate)
  then show ?thesis
    unfolding PositionalEncoding_forward_def
    by (simp add: x slice_table [OF m] min add_t_def broadcast_one3 cong: option.case_cong)
qed

lemma PositionalEncoding_forward_too_long:
  assumes x: "shape x = [B, L, D]" and m: "shape (pe m) = [1, W, D']" and l: "W < L" "2 \<le> W"
  shows "PositionalEncoding_forward m x = Inl BroadcastError"
proof -
  have min: "min W L = W" using l by simp
  have "broadcast_shapes [B, L, D] [Suc 0, W, D'] = None"
    using l by (simp add: broadcast_shapes_def)
  then show ?thesis
    unfolding PositionalEncoding_forward_def
    by (simp add: x slice_table [OF m] min add_t_def)
qed

text \<open>
  C6.  The table built at construction has shape [1, W, D]; its entry at position
  \<open>pos\<close> and feature \<open>i\<close> is \<open>sin (pos / 10000 ^ (2 i / D))\<close> for even \<open>i\<close> and
  \<open>cos (pos / 10000 ^ (2 (i + 1) / D))\<close> for odd \<open>i\<close>.  On an input of shape [B, L, D]
  with \<open>L \<le> W\<close>, forward returns the input plus the first \<open>L\<close> rows of the table,
  the same rows for every batch element; on the all-zero input of one example it
  returns exactly \<^verbatim>\<open>pe[:, :L]\<close>.
\<close>

theorem PositionalEncoding_spec:
  assumes "shape x = [B, L, D]" and "L \<le> W"
  shows "shape (pe (PositionalEncoding_init W D)) = [1, W, D]
   \<and> (\<forall>pos i. pos < W \<longrightarrow> i < D \<longrightarrow>
        elem (pe (PositionalEncoding_init W D)) [0, pos, i] =
          (if even i then sin (real pos / (10000 powr (real (2 * i) / real D)))
           else cos (real pos / (10000 powr (real (2 * (i + 1)) / real D)))))
   \<and> (\<exists>out. PositionalEncoding_forward (PositionalEncoding_init W D) x = Inr out
        \<and> shape out = [B, L, D]
        \<and> (\<forall>b l c. b < B \<longrightarrow> l < L \<longrightarrow> c < D \<longrightarrow>
             elem out [b, l, c] = elem x [b, l, c] + elem (pe (PositionalEncoding_init W D)) [0, l, c]))
   \<and> PositionalEncoding_forward (PositionalEncoding_init W D) (zeros [1, L, D])
       = slice (pe (PositionalEncoding_init W D)) 1 None (Some (int L))"
proof -
  let ?m = "PositionalEncoding_init W D"
  have t: "shape (pe ?m) = [1, W, D]" using PositionalEncoding_table [of W D] by simp
  have e: "\<forall>pos i. pos < W \<longrightarrow> i < D \<longrightarrow> elem (pe ?m) [0, pos, i] =
          (if even i then sin (real pos / (10000 powr (real (2 * i) / real D)))
           else cos (real pos / (10000 powr (real (2 * (i + 1)) / real D))))"
    using PositionalEncoding_table [of W D] by (simp add: pe_entry_def)
  have f: "PositionalEncoding_forward ?m x =
           Inr (tabulate [B, L, D] (\<lambda>idx. elem x idx + elem (pe ?m) (0 # tl idx)))"
    using assms t by (intro PositionalEncoding_forward_add) simp_all
  have z: "PositionalEncoding_forward ?m (zeros [1, L, D]) =
           Inr (tabulate [1, L, D] (\<lambda>idx. elem (zeros [1, L, D]) idx + elem (pe ?m) (0 # tl idx)))"
    using assms t by (intro PositionalEncoding_forward_add) simp_all
  have "tabulate [1, L, D] (\<lambda>idx. elem (zeros [1, L, D]) idx + elem (pe ?m) (0 # tl idx))
      = tabulate [1, L, D] (elem (pe ?m))"
    by (rule tabulate_cong) (auto simp: valid_index3 zeros_def elem_tabulate)
  moreover have "slice (pe ?m) 1 None (Some (int L)) = Inr (tabulate [1, L, D] (elem (pe ?m)))"
    using slice_table [OF t, of L] assms by (simp add: min_def)
  ultimately have z': "PositionalEncoding_forward ?m (zeros [1, L, D])
       = slice (pe ?m) 1 None (Some (int L))"
    using z by simp
  show ?thesis
    using t e z' unfolding f by (simp add: elem_tabulate)
qed

theorem PositionalEncoding_spec_witness:
  "shape (ones [2, 1, 2]) = [2, 1, 2] \<and> (1::nat) \<le> 3
   \<and> elem (pe (PositionalEncoding_init 3 2)) [0, 2, 1] = cos (2 / 10000 powr 2)
   \<and> (\<exists>out. PositionalEncoding_forward (PositionalEncoding_init 3 2) (ones [2, 1, 2]) = Inr out
         \<and> shape out = [2, 1, 2] \<and> elem out [1, 0, 1] = 2)"
proof -
  have s: "shape (ones [2, 1, 2]) = [2, 1, 2]" by (simp add: ones_def)
  have le: "(1::nat) \<le> 3" by simp
  note th = PositionalEncoding_spec [OF s le]
  have e: "elem (pe (PositionalEncoding_init 3 2)) [0, 2, 1] = cos (2 / 10000 powr 2)"
    using th [THEN conjunct2, THEN conjunct1, rule_format, of 2 1] by simp
  have e0: "elem (pe (PositionalEncoding_init 3 2)) [0, 0, 1] = 1"
    using th [THEN conjunct2, THEN conjunct1, rule_format, of 0 1] by simp
  obtain out where o: "PositionalEncoding_forward (PositionalEncoding_init 3 2) (ones [2, 1, 2]) = Inr out"
      "shape out = [2, 1, 2]"
      "\<forall>b l c. b < 2 \<longrightarrow> l < 1 \<longrightarrow> c < 2 \<longrightarrow>
         elem out [b, l, c] = elem (ones [2, 1, 2]) [b, l, c]
           + elem (pe (PositionalEncoding_init 3 2)) [0, l, c]"
    using th [THEN conjunct2, THEN conjunct2, THEN conjunct1] by blast
  have "elem (ones [2, 1, 2]) [1, 0, 1] = 1" by (simp add: ones_def elem_tabulate)
  then have "elem out [1, 0, 1] = 2"
    using o(3) [rule_format, of 1 0 1] e0 by simp
  then show ?thesis using s e o by simp
qed

text \<open>
  C8 (as the code has it).  Slicing past the end of the table does not raise: it
  returns the \<open>W\<close> rows there are.  For an input longer than a table of at least two
  rows, the addition then fails with a shape mismatch of the broadcast.
\<close>

theorem PositionalEncoding_overlong:
  assumes "shape x = [B, L, D]" and "W < L" and "2 \<le> W"
  shows "PositionalEncoding_forward (PositionalEncoding_init W D') x = Inl BroadcastError"
  using assms PositionalEncoding_table [of W D']
  by (intro PositionalEncoding_forward_too_long [where W = W and D' = D']) simp_all

theorem PositionalEncoding_overlong_witness:
  "shape (ones [1, 3, 1]) = [1, 3, 1] \<and> (2::nat) < 3 \<and> (2::nat) \<le> 2
   \<and> PositionalEncoding_forward (PositionalEncoding_init 2 1) (ones [1, 3, 1]) = Inl BroadcastError"
proof -
  have s: "shape (ones [1, 3, 1]) = [1, 3, 1]" by (simp add: ones_def)
  show ?thesis
    using s PositionalEncoding_overlong [OF s, of 2 1] by simp
qed

text \<open>
  A table of one row and an input of two positions: the row is broadcast over
  both positions and the call returns.
\<close>

theorem PositionalEncoding_overlong_counterexample:
  "PositionalEncoding_forward (PositionalEncoding_init 1 1) (ones [1, 2, 1])
     = Inr \<lparr>shape = [1, 2, 1], data = [1, 1]\<rparr>"
proof -
  let ?m = "PositionalEncoding_init 1 1"
  have t: "shape (pe ?m) = [1, 1, 1]" and e: "elem (pe ?m) [0, 0, 0] = 0"
    using PositionalEncoding_table [of 1 1] by (simp_all add: pe_entry_def)
  have "PositionalEncoding_forward ?m (ones [1, 2, 1]) =
      Inr (tabulate [1, 2, 1] (\<lambda>idx. elem (ones [1, 2, 1]) (bidx [1, 2, 1] idx)
                                     + elem (pe ?m) [0, 0, 0]))"
  proof -
    have "tabulate [1, 2, 1] (\<lambda>idx. elem (ones [1, 2, 1]) (bidx [1, 2, 1] idx)
              + elem (tabulate [1, 1, 1] (elem (pe ?m))) (bidx [1, 1, 1] idx))
        = tabulate [1, 2, 1] (\<lambda>idx. elem (ones [1, 2, 1]) (bidx [1, 2, 1] idx)
              + elem (pe ?m) [0, 0, 0])"
      by (rule tabulate_cong) (auto simp: valid_index3 bidx_def elem_tabulate)
    then show ?thesis
      unfolding PositionalEncoding_forward_def
      by (simp add: ones_def slice_table [OF t, of 2, simplified] add_t_def broadcast_shapes_def)
  qed
  also have "tabulate [1, 2, 1] (\<lambda>idx. elem (ones [1, 2, 1]) (bidx [1, 2, 1] idx)
                                     + elem (pe ?m) [0, 0, 0])
      = tabulate [1, 2, 1] (\<lambda>idx. 1)"
    by (rule tabulate_cong) (use e in \<open>auto simp: valid_index3 bidx_def ones_def elem_tabulate\<close>)
  also have "\<dots> = \<lparr>shape = [1, 2, 1], data = [1, 1]\<rparr>"
    by (simp add: tabulate_def upt_2)
  finally show ?thesis .
qed

text \<open>
  So it is for every input and every model dimension: a table of one row is
  broadcast over the positions of the input, however many.
\<close>

lemma PositionalEncoding_forward_one_row:
  assumes x: "shape x = [B, L, D]"
  shows "\<exists>out. PositionalEncoding_forward (PositionalEncoding_init 1 D) x = Inr out
           \<and> shape out = [B, L, D]"
proof -
  have m: "shape (pe (PositionalEncoding_init 1 D)) = [1, 1, D]"
    using PositionalEncoding_table [of 1 D] by simp
  have "broadcast_shapes [B, L, D] [Suc 0, min (Suc 0) L, D] = Some [B, L, D]"
    by (cases L) (simp_all add: broadcast_shapes_def)
  then show ?thesis
    unfolding PositionalEncoding_forward_def
    using slice_table [OF m, of L] by (simp add: x add_t_def)
qed

section \<open>Attention\<close>

lemma sum_list_upt: "sum_list (map f [0..<n]) = (\<Sum>e = 0..<n. f e)"
  by (simp add: interv_sum_list_conv_sum_set_nat)

lemma elem_mk: "elem \<lparr>shape = s, data = xs\<rparr> idx = xs ! ravel s idx"
  by (simp add: elem_def)

lemma reshape_elem:
  "valid_index s idx \<Longrightarrow> ravel s' idx' = ravel s idx
     \<Longrightarrow> elem \<lparr>shape = s', data = data (tabulate s f)\<rparr> idx' = f idx"
  using ravel_less [of s idx] by (simp add: elem_mk data_tabulate_nth unravel_ravel)

lemma view3:
  assumes "prod_list (shape t) = n * s * d" "0 < n" "0 < d"
  shows "view t [Dim n, Infer, Dim d] = Inr \<lparr>shape = [n, s, d], data = data t\<rparr>"
proof -
  have "n * s * d = s * (n * d)" by simp
  then have "n * s * d mod (n * d) = 0" "n * s * d div (n * d) = s"
    using assms by simp_all
  then show ?thesis
    using assms by (simp add: view_def numel_def Let_def)
qed

lemma view4:
  assumes "prod_list (shape t) = b * h * s * d" "0 < b" "0 < h" "0 < d"
  shows "view t [Dim b, Dim h, Infer, Dim d] = Inr \<lparr>shape = [b, h, s, d], data = data t\<rparr>"
proof -
  have "b * h * s * d = s * (b * (h * d))" by simp
  then have "b * h * s * d mod (b * (h * d)) = 0" "b * h * s * d div (b * (h * d)) = s"
    using assms by simp_all
  then show ?thesis
    using assms by (simp add: view_def numel_def Let_def)
qed

lemma transpose4:
  "shape t = [a, b, c, d] \<Longrightarrow>
     transpose_t t (Suc 0) 2 = Inr (tabulate [a, c, b, d] (\<lambda>idx. elem t (swap (Suc 0) 2 idx)))"
  by (simp add: transpose_t_def)

lemma transpose3:
  "shape t = [a, b, c] \<Longrightarrow>
     transpose_t t (Suc 0) 2 = Inr (tabulate [a, c, b] (\<lambda>idx. elem t (swap (Suc 0) 2 idx)))"
  by (simp add: transpose_t_def)

lemma ravel_heads:
  "0 < h \<Longrightarrow> ravel [b * h, s, d] [m, j, e] = ravel [b, h, s, d] [m div h, m mod h, j, e]"
proof -
  have "m * (s * d) = (m div h * h + m mod h) * (s * d)" by simp
  also have "\<dots> = m div h * (h * (s * d)) + m mod h * (s * d)"
    by (simp only: add_mult_distrib mult.assoc)
  finally show ?thesis by simp
qed

lemma div_heads: "m < b * h \<Longrightarrow> m div h < (b::nat)"
  by (simp add: less_mult_imp_div_less)

text \<open>the operand after transpose(1, 2).contiguous().view(b * h, -1, d)\<close>

lemma split_heads:
  fixes t :: "real tensor"
  assumes s: "shape t = [b, s, h, d]" and pos: "0 < b" "0 < h" "0 < d"
  shows "\<exists>r. (\<forall>f :: real tensor \<Rightarrow> error + real tensor.
               bindE (transpose_t t (Suc 0) 2) (\<lambda>tt. bindE (view tt [Dim (b * h), Infer, Dim d]) f) = f r)
           \<and> shape r = [b * h, s, d] \<and> wf r
           \<and> (\<forall>m j e. m < b * h \<longrightarrow> j < s \<longrightarrow> e < d \<longrightarrow>
                 elem r [m, j, e] = elem t [m div h, j, m mod h, e])"
proof -
  let ?tt = "tabulate [b, h, s, d] (\<lambda>idx. elem t (swap (Suc 0) 2 idx))"
  let ?r = "\<lparr>shape = [b * h, s, d], data = data ?tt\<rparr>"
  have v: "view ?tt [Dim (b * h), Infer, Dim d] = Inr ?r"
    using pos by (intro view3) simp_all
  have e: "elem ?r [m, j, e] = elem t [m div h, j, m mod h, e]"
    if "m < b * h" "j < s" "e < d" for m j e
  proof -
    have "valid_index [b, h, s, d] [m div h, m mod h, j, e]"
      using that pos by (simp add: div_heads)
    then have "elem ?r [m, j, e] = elem t (swap (Suc 0) 2 [m div h, m mod h, j, e])"
      using pos by (intro reshape_elem) (simp_all only: ravel_heads)
    then show ?thesis by simp
  qed
  have "wf ?r" by (simp add: wf_def)
  then show ?thesis
    using e by (intro exI [of _ ?r]) (simp add: transpose4 [OF s] v)
qed

lemma ravel_merge:
  "ravel [b, h, s, d] [bi, hi, i, c] = ravel [b * h, s, d] [bi * h + hi, i, c]"
  by (simp add: algebra_simps)

lemma ravel_unify:
  "ravel [b, s, h * d] [bi, i, hi * d + c] = ravel [b, s, h, d] [bi, i, hi, c]"
  by (simp add: algebra_simps)

lemma merge_less: "bi < b \<Longrightarrow> hi < h \<Longrightarrow> bi * h + hi < b * (h::nat)"
proof -
  assume a: "bi < b" "hi < h"
  then have "bi * h + hi < bi * h + h" by simp
  also have "\<dots> = Suc bi * h" by simp
  also have "\<dots> \<le> b * h" using a by (intro mult_le_mono1) simp
  finally show ?thesis .
qed

lemma elem_eq_scalar:
  "wf m \<Longrightarrow> valid_index (shape m) idx \<Longrightarrow> elem (eq_scalar m c) idx = (elem m idx = c)"
  using ravel_less [of "shape m" idx] by (simp add: eq_scalar_def elem_def wf_def)

lemma matmul3:
  assumes "shape a = [n, p, q]" "shape b = [n, q, r]"
  shows "matmul a b = Inr (tabulate [n, p, r]
           (\<lambda>idx. sum_list (map (\<lambda>e. elem a (bidx [n, p, q] [idx ! 0, idx ! 1, e])
                                    * elem b (bidx [n, q, r] [idx ! 0, e, idx ! 2])) [0..<q])))"
  using assms by (simp add: matmul_def broadcast_shapes_def)

lemma elem_matmul3:
  assumes "shape a = [n, p, q]" "shape b = [n, q, r]" "m < n" "i < p" "j < r"
  shows "elem (tabulate [n, p, r]
           (\<lambda>idx. sum_list (map (\<lambda>e. elem a (bidx [n, p, q] [idx ! 0, idx ! 1, e])
                                    * elem b (bidx [n, q, r] [idx ! 0, e, idx ! 2])) [0..<q]))) [m, i, j]
         = (\<Sum>e = 0..<q. elem a [m, i, e] * elem b [m, e, j])"
proof -
  have "(\<Sum>e = 0..<q. elem a (bidx [n, p, q] [m, i, e]) * elem b (bidx [n, q, r] [m, e, j]))
      = (\<Sum>e = 0..<q. elem a [m, i, e] * elem b [m, e, j])"
    using assms by (intro sum.cong refl) (simp add: bidx3)
  then show ?thesis
    using assms by (simp add: elem_tabulate sum_list_upt)
qed

lemma broadcast_mask3: "broadcast_shapes [Suc 0, p, r] [n, p, r] = Some [n, p, r]"
  by (auto simp: broadcast_shapes_def)

lemma masked_scores:
  fixes sc :: "real tensor"
  assumes sc: "shape sc = [n, p, r]"
    and m: "case msk of None \<Rightarrow> True | Some mk \<Rightarrow> shape mk = [1, p, r] \<and> wf mk"
  shows "\<exists>sc'. (case msk of None \<Rightarrow> Inr sc
                 | Some mk \<Rightarrow> masked_fill sc (eq_scalar mk 0) (- 1000000000)) = Inr sc'
          \<and> shape sc' = [n, p, r]
          \<and> (\<forall>a i j. a < n \<longrightarrow> i < p \<longrightarrow> j < r \<longrightarrow>
                elem sc' [a, i, j] =
                  (if (case msk of None \<Rightarrow> False | Some mk \<Rightarrow> elem mk [0, i, j] = 0)
                   then - 1000000000 else elem sc [a, i, j]))"
proof (cases msk)
  case None
  then show ?thesis using sc by simp
next
  case (Some mk)
  then have mk: "shape mk = [Suc 0, p, r]" "wf mk" using m by simp_all
  have sh: "shape (eq_scalar mk 0) = [Suc 0, p, r]" using mk by (simp add: eq_scalar_def)
  let ?sc' = "tabulate [n, p, r] (\<lambda>idx. if elem (eq_scalar mk 0) (bidx [Suc 0, p, r] idx)
                 then - 1000000000 else elem sc (bidx [n, p, r] idx))"
  have "masked_fill sc (eq_scalar mk 0) (- 1000000000) = Inr ?sc'"
    unfolding masked_fill_def sh sc broadcast_mask3 by simp
  moreover have "elem ?sc' [a, i, j] =
      (if elem mk [0, i, j] = 0 then - 1000000000 else elem sc [a, i, j])"
    if "a < n" "i < p" "j < r" for a i j
    using that mk by (simp add: elem_tabulate bidx3 elem_eq_scalar)
  ultimately show ?thesis using Some by simp
qed

lemma softmax3:
  assumes "shape t = [n, p, r]"
  shows "\<exists>t'. softmax t 2 = Inr t' \<and> shape t' = [n, p, r]
          \<and> (\<forall>a i j. a < n \<longrightarrow> i < p \<longrightarrow> j < r \<longrightarrow>
                elem t' [a, i, j] = exp (elem t [a, i, j]) / (\<Sum>j' = 0..<r. exp (elem t [a, i, j'])))"
  using assms by (simp add: softmax_def elem_tabulate sum_list_upt)

lemma matmul3_ex:
  assumes "shape a = [n, p, q]" "shape b = [n, q, r]"
  shows "\<exists>c. matmul a b = Inr c \<and> shape c = [n, p, r] \<and> wf c
          \<and> (\<exists>g. c = tabulate [n, p, r] g
                \<and> (\<forall>m i j. m < n \<longrightarrow> i < p \<longrightarrow> j < r \<longrightarrow>
                      g [m, i, j] = (\<Sum>e = 0..<q. elem a [m, i, e] * elem b [m, e, j])))"
proof -
  let ?g = "\<lambda>idx. sum_list (map (\<lambda>e. elem a (bidx [n, p, q] [idx ! 0, idx ! 1, e])
                                    * elem b (bidx [n, q, r] [idx ! 0, e, idx ! 2])) [0..<q])"
  have "?g [m, i, j] = (\<Sum>e = 0..<q. elem a [m, i, e] * elem b [m, e, j])"
    if "m < n" "i < p" "j < r" for m i j
    using elem_matmul3 [OF assms that] that by (simp add: elem_tabulate)
  then show ?thesis
    using matmul3 [OF assms] by (intro exI [of _ "tabulate [n, p, r] ?g"]) auto
qed

lemma merge_heads:
  fixes g :: "nat list \<Rightarrow> real"
  assumes pos: "0 < b" "0 < h" "0 < d"
  shows "\<exists>out. bindE (view (tabulate [b * h, s, d] g) [Dim b, Dim h, Infer, Dim d]) (\<lambda>scores.
                bindE (transpose_t scores (Suc 0) 2) (\<lambda>st.
                view st [Dim b, Infer, Dim (h * d)])) = Inr out
          \<and> shape out = [b, s, h * d] \<and> wf out
          \<and> (\<forall>bi i hi c. bi < b \<longrightarrow> i < s \<longrightarrow> hi < h \<longrightarrow> c < d \<longrightarrow>
                elem out [bi, i, hi * d + c] = g [bi * h + hi, i, c])"
proof -
  define pr where "pr = tabulate [b * h, s, d] g"
  define p4 where "p4 = \<lparr>shape = [b, h, s, d], data = data pr\<rparr>"
  define st where "st = tabulate [b, s, h, d] (\<lambda>idx. elem p4 (swap (Suc 0) 2 idx))"
  define out where "out = \<lparr>shape = [b, s, h * d], data = data st\<rparr>"
  have v1: "view pr [Dim b, Dim h, Infer, Dim d] = Inr p4"
    unfolding p4_def using pos by (intro view4) (simp_all add: pr_def)
  have tr: "transpose_t p4 (Suc 0) 2 = Inr st"
    by (simp add: transpose_t_def p4_def st_def)
  have v2: "view st [Dim b, Infer, Dim (h * d)] = Inr out"
    unfolding out_def using pos by (intro view3) (simp_all add: st_def)
  have e: "elem out [bi, i, hi * d + c] = g [bi * h + hi, i, c]"
    if "bi < b" "i < s" "hi < h" "c < d" for bi i hi c
  proof -
    have "valid_index [b, s, h, d] [bi, i, hi, c]" using that by simp
    then have "elem out [bi, i, hi * d + c] = elem p4 (swap (Suc 0) 2 [bi, i, hi, c])"
      unfolding out_def st_def by (intro reshape_elem) (simp_all only: ravel_unify)
    also have "\<dots> = elem p4 [bi, hi, i, c]" by simp
    also have "\<dots> = g [bi * h + hi, i, c]"
      unfolding p4_def pr_def using that
      by (intro reshape_elem) (simp_all add: merge_less ravel_merge del: ravel.simps)
    finally show ?thesis .
  qed
  have "wf out" "shape out = [b, s, h * d]" by (simp_all add: wf_def out_def st_def)
  then show ?thesis
    using e v1 tr v2 unfolding pr_def [symmetric] by (intro exI [of _ out]) simp
qed

lemma heads_div_mod: "hi < h \<Longrightarrow> (bi * h + hi) div h = bi \<and> (bi * h + hi) mod h = (hi::nat)"
  by simp

lemma sdpa_spec:
  fixes k q v :: "real tensor"
  assumes k: "shape k = [b, sk, h, d]" and q: "shape q = [b, sq, h, d]"
    and v: "shape v = [b, sk, h, d]"
    and pos: "0 < b" "0 < h" "0 < d"
    and m: "case msk of None \<Rightarrow> True | Some mk \<Rightarrow> shape mk = [1, sq, sk] \<and> wf mk"
  shows "\<exists>out. scaled_dot_product_attention k q v msk = Inr out
          \<and> shape out = [b, sq, h * d] \<and> wf out
          \<and> (\<forall>bi i hi c. bi < b \<longrightarrow> i < sq \<longrightarrow> hi < h \<longrightarrow> c < d \<longrightarrow>
                elem out [bi, i, hi * d + c] =
                  attention_ref sk d (\<lambda>i e. elem q [bi, i, hi, e]) (\<lambda>j e. elem k [bi, j, hi, e])
                    (\<lambda>j c. elem v [bi, j, hi, c])
                    (\<lambda>i j. case msk of None \<Rightarrow> False | Some mk \<Rightarrow> elem mk [0, i, j] = 0) i c)"
proof -
  obtain k1 where k1:
      "\<And>f :: real tensor \<Rightarrow> error + real tensor.
         bindE (transpose_t k (Suc 0) 2) (\<lambda>tt. bindE (view tt [Dim (b * h), Infer, Dim d]) f) = f k1"
      "shape k1 = [b * h, sk, d]"
      "\<And>m j e. m < b * h \<Longrightarrow> j < sk \<Longrightarrow> e < d \<Longrightarrow> elem k1 [m, j, e] = elem k [m div h, j, m mod h, e]"
    using split_heads [OF k pos] by auto
  obtain q1 where q1:
      "\<And>f :: real tensor \<Rightarrow> error + real tensor.
         bindE (transpose_t q (Suc 0) 2) (\<lambda>tt. bindE (view tt [Dim (b * h), Infer, Dim d]) f) = f q1"
      "shape q1 = [b * h, sq, d]"
      "\<And>m j e. m < b * h \<Longrightarrow> j < sq \<Longrightarrow> e < d \<Longrightarrow> elem q1 [m, j, e] = elem q [m div h, j, m mod h, e]"
    using split_heads [OF q pos] by auto
  obtain v1 where v1:
      "\<And>f :: real tensor \<Rightarrow> error + real tensor.
         bindE (transpose_t v (Suc 0) 2) (\<lambda>tt. bindE (view tt [Dim (b * h), Infer, Dim d]) f) = f v1"
      "shape v1 = [b * h, sk, d]"
      "\<And>m j e. m < b * h \<Longrightarrow> j < sk \<Longrightarrow> e < d \<Longrightarrow> elem v1 [m, j, e] = elem v [m div h, j, m mod h, e]"
    using split_heads [OF v pos] by auto
  define k1t where "k1t = tabulate [b * h, d, sk] (\<lambda>idx. elem k1 (swap (Suc 0) 2 idx))"
  have tk: "transpose_t k1 (Suc 0) 2 = Inr k1t"
    by (simp add: transpose3 [OF k1(2)] k1t_def)
  have k1t: "shape k1t = [b * h, d, sk]"
    "\<And>m e j. m < b * h \<Longrightarrow> e < d \<Longrightarrow> j < sk \<Longrightarrow> elem k1t [m, e, j] = elem k1 [m, j, e]"
    by (simp_all add: k1t_def elem_tabulate)
  obtain sc0 g0 where sc0: "matmul q1 k1t = Inr sc0" "shape sc0 = [b * h, sq, sk]"
      "sc0 = tabulate [b * h, sq, sk] g0"
      "\<And>m i j. m < b * h \<Longrightarrow> i < sq \<Longrightarrow> j < sk \<Longrightarrow>
         g0 [m, i, j] = (\<Sum>e = 0..<d. elem q1 [m, i, e] * elem k1t [m, e, j])"
    using matmul3_ex [OF q1(2) k1t(1)] by auto
  obtain sc1 where sc1:
      "(case msk of None \<Rightarrow> Inr sc0
        | Some mk \<Rightarrow> masked_fill sc0 (eq_scalar mk 0) (- 1000000000)) = Inr sc1"
      "shape sc1 = [b * h, sq, sk]"
      "\<And>a i j. a < b * h \<Longrightarrow> i < sq \<Longrightarrow> j < sk \<Longrightarrow>
         elem sc1 [a, i, j] =
           (if (case msk of None \<Rightarrow> False | Some mk \<Rightarrow> elem mk [0, i, j] = 0)
            then - 1000000000 else elem sc0 [a, i, j])"
    using masked_scores [OF sc0(2) m] by auto
  obtain sc2 where sc2: "softmax sc1 2 = Inr sc2" "shape sc2 = [b * h, sq, sk]"
      "\<And>a i j. a < b * h \<Longrightarrow> i < sq \<Longrightarrow> j < sk \<Longrightarrow>
         elem sc2 [a, i, j] = exp (elem sc1 [a, i, j]) / (\<Sum>j' = 0..<sk. exp (elem sc1 [a, i, j']))"
    using softmax3 [OF sc1(2)] by auto
  obtain pr g where pr: "matmul sc2 v1 = Inr pr" "pr = tabulate [b * h, sq, d] g"
      "\<And>m i c. m < b * h \<Longrightarrow> i < sq \<Longrightarrow> c < d \<Longrightarrow>
         g [m, i, c] = (\<Sum>j = 0..<sk. elem sc2 [m, i, j] * elem v1 [m, j, c])"
    using matmul3_ex [OF sc2(2) v1(2)] by auto
  obtain out where out:
      "bindE (view (tabulate [b * h, sq, d] g) [Dim b, Dim h, Infer, Dim d]) (\<lambda>scores.
         bindE (transpose_t scores (Suc 0) 2) (\<lambda>st.
         view st [Dim b, Infer, Dim (h * d)])) = Inr out"
      "shape out = [b, sq, h * d]" "wf out"
      "\<And>bi i hi c. bi < b \<Longrightarrow> i < sq \<Longrightarrow> hi < h \<Longrightarrow> c < d \<Longrightarrow>
         elem out [bi, i, hi * d + c] = g [bi * h + hi, i, c]"
    using merge_heads [OF pos, of sq g] by auto
  have res: "scaled_dot_product_attention k q v msk = Inr out"
    unfolding scaled_dot_product_attention_def
    using out(1) by (simp add: k k1(1) q1(1) v1(1) tk sc0(1) sc1(1) sc2(1) pr(1) pr(2))
  have val: "elem out [bi, i, hi * d + c] =
      attention_ref sk d (\<lambda>i e. elem q [bi, i, hi, e]) (\<lambda>j e. elem k [bi, j, hi, e])
        (\<lambda>j c. elem v [bi, j, hi, c])
        (\<lambda>i j. case msk of None \<Rightarrow> False | Some mk \<Rightarrow> elem mk [0, i, j] = 0) i c"
    if lt: "bi < b" "i < sq" "hi < h" "c < d" for bi i hi c
  proof -
    define a where "a = bi * h + hi"
    have a: "a < b * h" "a div h = bi" "a mod h = hi"
      using lt by (simp_all add: a_def merge_less)
    define score where "score = (\<lambda>i j. if (case msk of None \<Rightarrow> False | Some mk \<Rightarrow> elem mk [0, i, j] = 0)
        then - 1000000000 else (\<Sum>e = 0..<d. elem q [bi, i, hi, e] * elem k [bi, j, hi, e]))"
    have s0: "elem sc0 [a, i, j] = (\<Sum>e = 0..<d. elem q [bi, i, hi, e] * elem k [bi, j, hi, e])"
      if "j < sk" for j
    proof -
      have "elem sc0 [a, i, j] = (\<Sum>e = 0..<d. elem q1 [a, i, e] * elem k1t [a, e, j])"
        using a lt that by (simp add: sc0(3) elem_tabulate sc0(4))
      also have "\<dots> = (\<Sum>e = 0..<d. elem q [bi, i, hi, e] * elem k [bi, j, hi, e])"
        using a lt that by (intro sum.cong refl) (simp add: q1(3) k1t(2) k1(3))
      finally show ?thesis .
    qed
    have s1: "elem sc1 [a, i, j] = score i j" if "j < sk" for j
      using a lt that by (simp add: sc1(3) s0 score_def)
    have s2: "elem sc2 [a, i, j] = exp (score i j) / (\<Sum>j' = 0..<sk. exp (score i j'))"
      if "j < sk" for j
    proof -
      have "(\<Sum>j' = 0..<sk. exp (elem sc1 [a, i, j'])) = (\<Sum>j' = 0..<sk. exp (score i j'))"
        by (intro sum.cong refl) (simp add: s1)
      then show ?thesis using a lt that by (simp add: sc2(3) s1)
    qed
    have "elem out [bi, i, hi * d + c] = g [a, i, c]"
      using lt by (simp add: out(4) a_def)
    also have "\<dots> = (\<Sum>j = 0..<sk. elem sc2 [a, i, j] * elem v1 [a, j, c])"
      using a lt by (simp add: pr(3))
    also have "\<dots> = (\<Sum>j = 0..<sk. exp (score i j) / (\<Sum>j' = 0..<sk. exp (score i j'))
                          * elem v [bi, j, hi, c])"
      using a lt by (intro sum.cong refl) (simp add: s2 v1(3))
    finally show ?thesis
      by (simp add: attention_ref_def score_def)
  qed
  show ?thesis using res out(2,3) val by blast
qed

text \<open>
  C2.  For a query of shape [b, sq, h, d] and key and value of shape [b, sk, h, d]
  (batch, heads and d positive; no mask, or a mask of shape [1, sq, sk]),
  \<open>scaled_dot_product_attention\<close> returns a tensor of shape [b, sq, h * d].  Its block
  for batch element \<open>bi\<close> and head \<open>hi\<close> is the reference attention of the slices
  of that batch element and head: scores \<open>Q K\<^sup>T\<close> without scaling, -1e9 where the
  mask is 0, softmax over the keys, times \<open>V\<close>.  With one batch element and one
  head the output is the reference attention itself.
\<close>

theorem scaled_dot_product_attention_spec:
  fixes k q v :: "real tensor"
  assumes "shape q = [b, sq, h, d]" and "shape k = [b, sk, h, d]" and "shape v = [b, sk, h, d]"
    and "0 < b" and "0 < h" and "0 < d"
    and "case msk of None \<Rightarrow> True | Some mk \<Rightarrow> shape mk = [1, sq, sk] \<and> wf mk"
  shows "\<exists>out. scaled_dot_product_attention k q v msk = Inr out
          \<and> shape out = [b, sq, h * d]
          \<and> (\<forall>bi i hi c. bi < b \<longrightarrow> i < sq \<longrightarrow> hi < h \<longrightarrow> c < d \<longrightarrow>
                elem out [bi, i, hi * d + c] =
                  attention_ref sk d (\<lambda>i e. elem q [bi, i, hi, e]) (\<lambda>j e. elem k [bi, j, hi, e])
                    (\<lambda>j c. elem v [bi, j, hi, c])
                    (\<lambda>i j. case msk of None \<Rightarrow> False | Some mk \<Rightarrow> elem mk [0, i, j] = 0) i c)
          \<and> (b = 1 \<and> h = 1 \<longrightarrow>
               (\<forall>i c. i < sq \<longrightarrow> c < d \<longrightarrow>
                  elem out [0, i, c] =
                    attention_ref sk d (\<lambda>i e. elem q [0, i, 0, e]) (\<lambda>j e. elem k [0, j, 0, e])
                      (\<lambda>j c. elem v [0, j, 0, c])
                      (\<lambda>i j. case msk of None \<Rightarrow> False | Some mk \<Rightarrow> elem mk [0, i, j] = 0) i c))"
proof -
  obtain out where out: "scaled_dot_product_attention k q v msk = Inr out"
      "shape out = [b, sq, h * d]"
      "\<And>bi i hi c. bi < b \<Longrightarrow> i < sq \<Longrightarrow> hi < h \<Longrightarrow> c < d \<Longrightarrow>
         elem out [bi, i, hi * d + c] =
           attention_ref sk d (\<lambda>i e. elem q [bi, i, hi, e]) (\<lambda>j e. elem k [bi, j, hi, e])
             (\<lambda>j c. elem v [bi, j, hi, c])
             (\<lambda>i j. case msk of None \<Rightarrow> False | Some mk \<Rightarrow> elem mk [0, i, j] = 0) i c"
    using sdpa_spec [OF assms(2) assms(1) assms(3-7)] by auto
  have "elem out [0, i, c] =
      attention_ref sk d (\<lambda>i e. elem q [0, i, 0, e]) (\<lambda>j e. elem k [0, j, 0, e])
        (\<lambda>j c. elem v [0, j, 0, c])
        (\<lambda>i j. case msk of None \<Rightarrow> False | Some mk \<Rightarrow> elem mk [0, i, j] = 0) i c"
    if "b = 1" "h = 1" "i < sq" "c < d" for i c
    using out(3) [of 0 i 0 c] that by simp
  then show ?thesis using out by blast
qed

theorem scaled_dot_product_attention_spec_witness:
  "shape \<lparr>shape = [1, 2, 2, 1], data = [1, 0, 2, 0 :: real]\<rparr> = [1, 2, 2, 1]
   \<and> shape \<lparr>shape = [1, 2, 2, 1], data = [3, 1, 3, 5 :: real]\<rparr> = [1, 2, 2, 1]
   \<and> shape \<lparr>shape = [1, 2, 2, 1], data = [2, 10, 4, 30 :: real]\<rparr> = [1, 2, 2, 1]
   \<and> (0::nat) < 1 \<and> (0::nat) < 2
   \<and> shape \<lparr>shape = [1, 2, 2], data = [1, 0, 1, 1 :: 8 word]\<rparr> = [1, 2, 2]
   \<and> wf \<lparr>shape = [1, 2, 2], data = [1, 0, 1, 1 :: 8 word]\<rparr>
   \<and> (\<exists>out. scaled_dot_product_attention \<lparr>shape = [1, 2, 2, 1], data = [3, 1, 3, 5]\<rparr>
                \<lparr>shape = [1, 2, 2, 1], data = [1, 0, 2, 0]\<rparr>
                \<lparr>shape = [1, 2, 2, 1], data = [2, 10, 4, 30]\<rparr>
                (Some \<lparr>shape = [1, 2, 2], data = [1, 0, 1, 1]\<rparr>) = Inr out
          \<and> shape out = [1, 2, 2]
          \<and> elem out [0, 1, 0] = 3 \<and> elem out [0, 1, 1] = 20
          \<and> elem out [0, 0, 1] = (10 + 30 * exp (- 1000000000)) / (1 + exp (- 1000000000)))"
proof -
  let ?q = "\<lparr>shape = [1, 2, 2, 1], data = [1, 0, 2, 0 :: real]\<rparr>"
  let ?k = "\<lparr>shape = [1, 2, 2, 1], data = [3, 1, 3, 5 :: real]\<rparr>"
  let ?v = "\<lparr>shape = [1, 2, 2, 1], data = [2, 10, 4, 30 :: real]\<rparr>"
  let ?m = "\<lparr>shape = [1, 2, 2], data = [1, 0, 1, 1 :: 8 word]\<rparr>"
  let ?ref = "\<lambda>hi. attention_ref 2 1 (\<lambda>i e. elem ?q [0, i, hi, e]) (\<lambda>j e. elem ?k [0, j, hi, e])
             (\<lambda>j c. elem ?v [0, j, hi, c])
             (\<lambda>i j. case Some ?m of None \<Rightarrow> False | Some mk \<Rightarrow> elem mk [0, i, j] = 0)"
  have s: "shape ?q = [1, 2, 2, 1]" "shape ?k = [1, 2, 2, 1]" "shape ?v = [1, 2, 2, 1]"
    and p: "(0::nat) < 1" "(0::nat) < 2"
    and m: "case Some ?m of None \<Rightarrow> True | Some mk \<Rightarrow> shape mk = [1, 2, 2] \<and> wf mk"
    by (simp_all add: wf_def)
  obtain out where out: "scaled_dot_product_attention ?k ?q ?v (Some ?m) = Inr out"
      "shape out = [1, 2, 2 * 1]"
      "\<forall>bi i hi c. bi < 1 \<longrightarrow> i < 2 \<longrightarrow> hi < 2 \<longrightarrow> c < 1 \<longrightarrow>
         elem out [bi, i, hi * 1 + c] =
           attention_ref 2 1 (\<lambda>i e. elem ?q [bi, i, hi, e]) (\<lambda>j e. elem ?k [bi, j, hi, e])
             (\<lambda>j c. elem ?v [bi, j, hi, c])
             (\<lambda>i j. case Some ?m of None \<Rightarrow> False | Some mk \<Rightarrow> elem mk [0, i, j] = 0) i c"
    using scaled_dot_product_attention_spec [OF s p(1) p(2) p(1) m] by auto
  have e10: "elem out [0, 1, 0] = ?ref 0 1 0"
    using out(3) [rule_format, of 0 1 0 0] by simp
  have e11: "elem out [0, 1, 1] = ?ref 1 1 0"
    using out(3) [rule_format, of 0 1 1 0] by simp
  have e01: "elem out [0, 0, 1] = ?ref 1 0 0"
    using out(3) [rule_format, of 0 0 1 0] by simp
  have r10: "?ref 0 1 0 = 3"
    by (simp add: attention_ref_def elem_def numeral_2_eq_2)
  have r11: "?ref 1 1 0 = 20"
    by (simp add: attention_ref_def elem_def numeral_2_eq_2)
  have r01: "?ref 1 0 0 = (10 + 30 * exp (- 1000000000)) / (1 + exp (- 1000000000))"
    by (simp add: attention_ref_def elem_def numeral_2_eq_2 add_divide_distrib)
  show ?thesis
    using out(1,2) m p e10 e11 e01 r10 r11 r01 by simp
qed

section \<open>MultiHeadAttention\<close>

lemma broadcast_rev_same: "broadcast_rev xs xs = Some xs"
  by (induction xs) simp_all

lemma broadcast_shapes_same [simp]: "broadcast_shapes s s = Some s"
  by (simp add: broadcast_shapes_def broadcast_rev_same)

lemma add_t_same:
  "shape a = shape b \<Longrightarrow> \<exists>r. add_t a b = Inr r \<and> shape r = shape a \<and> wf r"
  by (simp add: add_t_def)

lemma F_linear_shape:
  assumes "Linear_ok i o' hb l" "shape x = s @ [i]"
  shows "\<exists>r. Linear_forward l x = Inr r \<and> shape r = s @ [o'] \<and> wf r"
  using assms
  by (auto simp: Linear_forward_def F_linear_def Linear_ok_def split: option.splits)

lemma LayerNorm_forward_shape:
  assumes "LayerNorm_ok d m" "shape x = s @ [d]"
  shows "\<exists>r. LayerNorm_forward m x = Inr r \<and> shape r = s @ [d] \<and> wf r"
  using assms by (auto simp: LayerNorm_forward_def LayerNorm_ok_def Let_def)

lemma view_heads:
  assumes "shape t = [b, s, h * d]" "0 < b" "0 < h" "0 < d"
  shows "view t [Dim b, Infer, Dim h, Dim d] = Inr \<lparr>shape = [b, s, h, d], data = data t\<rparr>"
proof -
  have "b * (s * (h * d)) = s * (b * (h * d))" by simp
  then have "b * (s * (h * d)) mod (b * (h * d)) = 0" "b * (s * (h * d)) div (b * (h * d)) = s"
    using assms by simp_all
  then show ?thesis
    using assms by (simp add: view_def numel_def Let_def)
qed

lemma MultiHeadAttention_forward_decomp:
  assumes ok: "MultiHeadAttention_ok h dm msk m"
    and q: "shape q = [b, sq, dm]" and k: "shape k = [b, sk, dm]" and v: "shape v = [b, sk, dm]"
    and pos: "0 < b" "0 < h" "0 < dm"
    and mk: "mask_ok sq sk msk"
  shows "\<exists>qp kp vp att out.
      Linear_forward (q_linear m) q = Inr qp \<and> shape qp = [b, sq, h * dm]
    \<and> Linear_forward (k_linear m) k = Inr kp \<and> shape kp = [b, sk, h * dm]
    \<and> Linear_forward (v_linear m) v = Inr vp \<and> shape vp = [b, sk, h * dm]
    \<and> scaled_dot_product_attention \<lparr>shape = [b, sk, h, dm], data = data kp\<rparr>
          \<lparr>shape = [b, sq, h, dm], data = data qp\<rparr> \<lparr>shape = [b, sk, h, dm], data = data vp\<rparr>
          msk = Inr att
    \<and> shape att = [b, sq, h * dm]
    \<and> Linear_forward (unifyheads m) att = Inr out \<and> shape out = [b, sq, dm] \<and> wf out
    \<and> MultiHeadAttention_forward m q k v = Inr out
    \<and> (\<forall>dr. MultiHeadAttention_forward (m\<lparr>mha_dropout := dr\<rparr>) q k v = Inr out)"
proof -
  have lk: "Linear_ok dm (h * dm) False (k_linear m)" and lq: "Linear_ok dm (h * dm) False (q_linear m)"
    and lv: "Linear_ok dm (h * dm) False (v_linear m)" and lu: "Linear_ok (h * dm) dm True (unifyheads m)"
    and hm: "mha_h m = h" "mha_d_model m = dm" "mha_mask m = msk"
    using ok by (simp_all add: MultiHeadAttention_ok_def)
  obtain kp where kp: "Linear_forward (k_linear m) k = Inr kp" "shape kp = [b, sk, h * dm]"
    using F_linear_shape [OF lk, of k "[b, sk]"] k by auto
  obtain qp where qp: "Linear_forward (q_linear m) q = Inr qp" "shape qp = [b, sq, h * dm]"
    using F_linear_shape [OF lq, of q "[b, sq]"] q by auto
  obtain vp where vp: "Linear_forward (v_linear m) v = Inr vp" "shape vp = [b, sk, h * dm]"
    using F_linear_shape [OF lv, of v "[b, sk]"] v by auto
  define k4 where "k4 = \<lparr>shape = [b, sk, h, dm], data = data kp\<rparr>"
  define q4 where "q4 = \<lparr>shape = [b, sq, h, dm], data = data qp\<rparr>"
  define v4 where "v4 = \<lparr>shape = [b, sk, h, dm], data = data vp\<rparr>"
  have vk: "view kp [Dim b, Infer, Dim h, Dim dm] = Inr k4"
    unfolding k4_def by (rule view_heads [OF kp(2) pos])
  have vq: "view qp [Dim b, Infer, Dim h, Dim dm] = Inr q4"
    unfolding q4_def by (rule view_heads [OF qp(2) pos])
  have vv: "view vp [Dim b, Infer, Dim h, Dim dm] = Inr v4"
    unfolding v4_def by (rule view_heads [OF vp(2) pos])
  have s4: "shape k4 = [b, sk, h, dm]" "shape q4 = [b, sq, h, dm]" "shape v4 = [b, sk, h, dm]"
    by (simp_all add: k4_def q4_def v4_def)
  have mk': "case msk of None \<Rightarrow> True | Some mk \<Rightarrow> shape mk = [1, sq, sk] \<and> wf mk"
    using mk by (simp add: mask_ok_def)
  obtain att where att: "scaled_dot_product_attention k4 q4 v4 msk = Inr att"
      "shape att = [b, sq, h * dm]"
    using sdpa_spec [OF s4 pos mk'] by auto
  obtain r where r: "Linear_forward (unifyheads m) att = Inr r" "shape r = [b, sq, dm]" "wf r"
    using F_linear_shape [OF lu, of att "[b, sq]"] att(2) by auto
  have f: "MultiHeadAttention_forward m q k v = Inr r"
    by (simp add: MultiHeadAttention_forward_def q kp qp vp hm vk vq vv att r)
  have "MultiHeadAttention_forward (m\<lparr>mha_dropout := dr\<rparr>) q k v = MultiHeadAttention_forward m q k v" for dr
    by (simp add: MultiHeadAttention_forward_def)
  then show ?thesis
    using kp qp vp att [unfolded k4_def q4_def v4_def] r f by auto
qed

lemma MultiHeadAttention_forward_shape:
  assumes "MultiHeadAttention_ok h dm msk m"
    and "shape q = [b, sq, dm]" and "shape k = [b, sk, dm]" and "shape v = [b, sk, dm]"
    and "0 < b" "0 < h" "0 < dm"
    and "mask_ok sq sk msk"
  shows "\<exists>r. MultiHeadAttention_forward m q k v = Inr r \<and> shape r = [b, sq, dm] \<and> wf r"
  using MultiHeadAttention_forward_decomp [OF assms] by auto

lemma mha_example_forward:
  "MultiHeadAttention_forward mha_example x_example x_example x_example
     = Inr \<lparr>shape = [1, 1, 1], data = [3]\<rparr>"
  by (simp add: mha_example_def x_example_def MultiHeadAttention_forward_def Linear_forward_def
      F_linear_def tabulate_def view_def scaled_dot_product_attention_def transpose_t_def
      matmul_def softmax_def elem_def swap_def bidx_def broadcast_shapes_def numel_def
      size_t_def Let_def)

text \<open>
  C7 (as the code has it).  In a forward pass of MultiHeadAttention the inputs
  q, k and v each go through a linear map without bias to width heads * d_model,
  the attention core runs with the mask fixed at construction, and a linear map
  with bias unifies the heads back to width d_model.  The result of that map is
  what forward returns: the dropout the module holds plays no part in it.
\<close>

theorem MultiHeadAttention_forward_spec:
  assumes "MultiHeadAttention_ok h dm msk m"
    and "shape q = [b, sq, dm]" and "shape k = [b, sk, dm]" and "shape v = [b, sk, dm]"
    and "0 < b" and "0 < h" and "0 < dm"
    and "mask_ok sq sk msk"
  shows "\<exists>qp kp vp att out.
      bias (q_linear m) = None \<and> bias (k_linear m) = None \<and> bias (v_linear m) = None
    \<and> Linear_forward (q_linear m) q = Inr qp \<and> shape qp = [b, sq, h * dm]
    \<and> Linear_forward (k_linear m) k = Inr kp \<and> shape kp = [b, sk, h * dm]
    \<and> Linear_forward (v_linear m) v = Inr vp \<and> shape vp = [b, sk, h * dm]
    \<and> mha_mask m = msk
    \<and> scaled_dot_product_attention \<lparr>shape = [b, sk, h, dm], data = data kp\<rparr>
          \<lparr>shape = [b, sq, h, dm], data = data qp\<rparr> \<lparr>shape = [b, sk, h, dm], data = data vp\<rparr>
          (mha_mask m) = Inr att
    \<and> shape att = [b, sq, h * dm]
    \<and> bias (unifyheads m) \<noteq> None
    \<and> Linear_forward (unifyheads m) att = Inr out \<and> shape out = [b, sq, dm]
    \<and> MultiHeadAttention_forward m q k v = Inr out
    \<and> (\<forall>dr. MultiHeadAttention_forward (m\<lparr>mha_dropout := dr\<rparr>) q k v = Inr out)"
proof -
  have b: "bias (q_linear m) = None" "bias (k_linear m) = None" "bias (v_linear m) = None"
    "bias (unifyheads m) \<noteq> None" "mha_mask m = msk"
    using assms(1)
    by (auto simp: MultiHeadAttention_ok_def Linear_ok_def split: option.splits)
  show ?thesis
    using MultiHeadAttention_forward_decomp [OF assms] b by (simp only:) blast
qed

text \<open>
  With dropout probability 1 in training mode, dropout after the unifying map
  would return zeros; forward returns 3.
\<close>

theorem MultiHeadAttention_dropout_counterexample:
  "MultiHeadAttention_forward mha_example x_example x_example x_example
     = Inr \<lparr>shape = [1, 1, 1], data = [3]\<rparr>
   \<and> map_sum id fst (MultiHeadAttention_forward_claimed mha_example x_example x_example x_example (\<lambda>_. 0))
     = Inr \<lparr>shape = [1, 1, 1], data = [0]\<rparr>"
  by (simp add: mha_example_forward MultiHeadAttention_forward_claimed_def bindM_def liftE_def
      Dropout_forward_def draw_def)
    (simp add: mha_example_def)

section \<open>Layers and stacks: every run returns, with the shape of the input\<close>

lemma returnsM_iff: "returnsM f P \<longleftrightarrow> (\<forall>g. \<exists>r g'. f g = Inr (r, g') \<and> P r)"
  unfolding returnsM_def
proof (intro iffI allI)
  fix g assume a: "\<forall>g. case f g of Inl e \<Rightarrow> False | Inr (r, g') \<Rightarrow> P r"
  show "\<exists>r g'. f g = Inr (r, g') \<and> P r"
    using a [rule_format, of g] by (cases "f g") auto
next
  fix g assume "\<forall>g. \<exists>r g'. f g = Inr (r, g') \<and> P r"
  then obtain r g' where "f g = Inr (r, g')" "P r" by blast
  then show "case f g of Inl e \<Rightarrow> False | Inr (r, g') \<Rightarrow> P r" by simp
qed

lemma returnsM_bindM:
  assumes "returnsM f P" "\<And>r. P r \<Longrightarrow> returnsM (h r) Q"
  shows "returnsM (bindM f h) Q"
  unfolding returnsM_iff
proof
  fix g
  obtain r g1 where f: "f g = Inr (r, g1)" "P r" using assms(1) unfolding returnsM_iff by blast
  obtain r' g2 where "h r g1 = Inr (r', g2)" "Q r'"
    using assms(2) [OF f(2)] unfolding returnsM_iff by blast
  then show "\<exists>r g'. bindM f h g = Inr (r, g') \<and> Q r"
    using f by (simp add: bindM_def)
qed

lemma returnsM_liftE: "m = Inr r \<Longrightarrow> P r \<Longrightarrow> returnsM (liftE m) P"
  by (simp add: returnsM_iff liftE_def)

lemma returnsM_liftE_ex: "\<exists>r. m = Inr r \<and> P r \<Longrightarrow> returnsM (liftE m) P"
  by (auto simp: returnsM_iff liftE_def)

lemma returnsM_returnM: "P r \<Longrightarrow> returnsM (returnM r) P"
  by (simp add: returnsM_iff returnM_def)

lemma returnsM_weaken: "returnsM f P \<Longrightarrow> (\<And>r. P r \<Longrightarrow> Q r) \<Longrightarrow> returnsM f Q"
  unfolding returnsM_iff by blast

lemma failsM_bindM_first: "failsM f e \<Longrightarrow> failsM (bindM f h) e"
  by (simp add: failsM_def bindM_def)

lemma failsM_bindM_later:
  assumes "returnsM f P" "\<And>r. P r \<Longrightarrow> failsM (h r) e"
  shows "failsM (bindM f h) e"
  unfolding failsM_def
proof
  fix g
  obtain r g1 where f: "f g = Inr (r, g1)" "P r" using assms(1) unfolding returnsM_iff by blast
  show "bindM f h g = Inl e"
    using assms(2) [OF f(2)] f by (simp add: bindM_def failsM_def)
qed

lemma failsM_liftE: "m = Inl e \<Longrightarrow> failsM (liftE m) e"
  by (simp add: failsM_def liftE_def)

lemma set_map2_subset:
  "v \<in> set (map2 f xs ys) \<Longrightarrow> \<exists>x y. y \<in> set ys \<and> v = f x y"
  by (auto dest: set_zip_rightD)

lemma Dropout_forward_returns:
  "returnsM (Dropout_forward d x)
     (\<lambda>r. shape r = shape x \<and> (wf x \<longrightarrow> wf r)
          \<and> (Dropout_ok d \<longrightarrow> (\<forall>v \<in> set (data x). 0 \<le> v) \<longrightarrow> (\<forall>v \<in> set (data r). 0 \<le> v)))"
proof -
  have nn: "0 \<le> (if u < 1 - drop_p d then v / (1 - drop_p d) else 0)"
    if "Dropout_ok d" "0 \<le> v" for u v :: real
    using that by (simp add: Dropout_ok_def)
  have "0 \<le> w" if ok: "Dropout_ok d" and x: "\<forall>v \<in> set (data x). 0 \<le> v"
    and w: "w \<in> set (map2 (\<lambda>u v. if u < 1 - drop_p d then v / (1 - drop_p d) else 0) us (data x))"
    for w us
  proof -
    obtain u v where "v \<in> set (data x)" "w = (if u < 1 - drop_p d then v / (1 - drop_p d) else 0)"
      using set_map2_subset [OF w] by blast
    then show ?thesis using nn [OF ok] x by auto
  qed
  then show ?thesis
    by (auto simp: returnsM_iff Dropout_forward_def draw_def wf_def)
qed

lemma Dropout_forward_shape:
  "returnsM (Dropout_forward d x) (\<lambda>r. shape r = shape x)"
  by (rule returnsM_weaken [OF Dropout_forward_returns]) simp

lemma shape_relu [simp]: "shape (relu t) = shape t"
  and wf_relu [simp]: "wf (relu t) = wf t"
  and shape_sigmoid [simp]: "shape (sigmoid t) = shape t"
  and wf_sigmoid [simp]: "wf (sigmoid t) = wf t"
  by (simp_all add: relu_def sigmoid_def wf_def)

lemma Lin_ok_iff: "Lin_ok i out l \<longleftrightarrow> (\<exists>l'. l = Lin l' \<and> Linear_ok i out True l')"
  by (cases l) simp_all

lemma is_ReLU_iff: "is_ReLU l \<longleftrightarrow> l = ReLU"
  by (cases l) simp_all

lemma Drop_ok_iff: "Drop_ok l \<longleftrightarrow> (\<exists>d. l = Drop d \<and> Dropout_ok d)"
  by (cases l) simp_all

lemma is_Sigmoid_iff: "is_Sigmoid l \<longleftrightarrow> l = Sigmoid"
  by (cases l) simp_all

lemma FeedForward_forward_shape:
  assumes ok: "FeedForward_ok d m" and x: "shape x = s @ [d]"
  shows "returnsM (FeedForward_forward m x) (\<lambda>r. shape r = s @ [d])"
proof -
  obtain l1 dr l2 where m: "ff_linear m = [Lin l1, ReLU, Drop dr, Lin l2]"
    and l1: "Linear_ok d (10 * d) True l1" and l2: "Linear_ok (10 * d) d True l2"
    using ok unfolding FeedForward_ok_def layers_ok_def
    by (auto simp: list_all2_Cons1 Lin_ok_iff is_ReLU_iff Drop_ok_iff)
  have 1: "returnsM (liftE (Linear_forward l1 x)) (\<lambda>r. shape r = s @ [10 * d])"
    using F_linear_shape [OF l1 x] by (intro returnsM_liftE_ex) auto
  have 2: "returnsM (liftE (Linear_forward l2 r)) (\<lambda>r. shape r = s @ [d])"
    if "shape r = s @ [10 * d]" for r
    using F_linear_shape [OF l2 that] by (intro returnsM_liftE_ex) auto
  show ?thesis
    unfolding FeedForward_forward_def m Sequential_forward.simps layer_forward.simps
    apply (rule returnsM_bindM [OF 1])
    apply (rule returnsM_bindM [OF returnsM_returnM [where P = "\<lambda>r. shape r = s @ [10 * d]"]])
     apply simp
    apply (rule returnsM_bindM [OF Dropout_forward_shape])
    apply (rule returnsM_bindM [OF 2])
     apply simp
    apply (rule returnsM_returnM)
    apply simp
    done
qed

lemma LayerNorm_returns:
  "LayerNorm_ok d m \<Longrightarrow> shape x = [b, s, d]
     \<Longrightarrow> returnsM (liftE (LayerNorm_forward m x)) (\<lambda>r. shape r = [b, s, d])"
  using LayerNorm_forward_shape [of d m x "[b, s]"] by (intro returnsM_liftE_ex) auto

lemma add_t_returns:
  "shape a = [b, s, d] \<Longrightarrow> shape c = [b, s, d]
     \<Longrightarrow> returnsM (liftE (add_t a c)) (\<lambda>r. shape r = [b, s, d])"
  using add_t_same [of a c] by (intro returnsM_liftE_ex) auto

lemma MultiHeadAttention_returns:
  assumes "MultiHeadAttention_ok h d msk m"
    and "shape q = [b, sq, d]" and "shape k = [b, sk, d]" and "shape v = [b, sk, d]"
    and "0 < b" "0 < h" "0 < d" and "mask_ok sq sk msk"
  shows "returnsM (liftE (MultiHeadAttention_forward m q k v)) (\<lambda>r. shape r = [b, sq, d])"
  using MultiHeadAttention_forward_shape [OF assms] by (intro returnsM_liftE_ex) auto

lemma Dropout_returns:
  "shape x = s \<Longrightarrow> returnsM (Dropout_forward d x) (\<lambda>r. shape r = s)"
  using Dropout_forward_shape [of d x] by simp

lemma FeedForward_returns:
  "FeedForward_ok d m \<Longrightarrow> shape x = [b, s, d]
     \<Longrightarrow> returnsM (FeedForward_forward m x) (\<lambda>r. shape r = [b, s, d])"
  using FeedForward_forward_shape [of d m x "[b, s]"] by simp

lemma EncoderLayer_forward_shape:
  assumes ok: "EncoderLayer_ok h d m" and x: "shape x = [b, s, d]"
    and pos: "0 < b" "0 < h" "0 < d"
  shows "returnsM (EncoderLayer_forward m x) (\<lambda>r. shape r = [b, s, d])"
proof -
  have n1: "LayerNorm_ok d (el_norm_1 m)" and n2: "LayerNorm_ok d (el_norm_2 m)"
    and at: "MultiHeadAttention_ok h d None (el_attn m)" and ff: "FeedForward_ok d (el_ff m)"
    using ok by (simp_all add: EncoderLayer_ok_def)
  have mk: "mask_ok s s None" by (simp add: mask_ok_def)
  show ?thesis
    unfolding EncoderLayer_forward_def
    apply (rule returnsM_bindM [OF LayerNorm_returns [OF n1 x]])
    apply (rule returnsM_bindM [OF MultiHeadAttention_returns [OF at _ _ _ pos mk]], assumption+)
    apply (rule returnsM_bindM [OF Dropout_returns], assumption)
    apply (rule returnsM_bindM [OF add_t_returns [OF x]], assumption)
    apply (rule returnsM_bindM [OF LayerNorm_returns [OF n2]], assumption)
    apply (rule returnsM_bindM [OF FeedForward_returns [OF ff]], assumption)
    apply (rule returnsM_bindM [OF Dropout_returns], assumption)
    apply (rule add_t_returns, assumption+)
    done
qed

lemma DecoderLayer_forward_shape:
  assumes ok: "DecoderLayer_ok h d msk m" and x: "shape x = [b, s, d]"
    and e: "shape enc_out = [b, sk, d]"
    and pos: "0 < b" "0 < h" "0 < d" and mk: "mask_ok s s msk"
  shows "returnsM (DecoderLayer_forward m x enc_out) (\<lambda>r. shape r = [b, s, d])"
proof -
  have n1: "LayerNorm_ok d (dl_norm_1 m)" and n2: "LayerNorm_ok d (dl_norm_2 m)"
    and n3: "LayerNorm_ok d (dl_norm_3 m)"
    and a1: "MultiHeadAttention_ok h d msk (attn_1 m)"
    and a2: "MultiHeadAttention_ok h d None (attn_2 m)" and ff: "FeedForward_ok d (dl_ff m)"
    using ok by (simp_all add: DecoderLayer_ok_def)
  have mk2: "mask_ok s sk None" by (simp add: mask_ok_def)
  show ?thesis
    unfolding DecoderLayer_forward_def
    apply (rule returnsM_bindM [OF LayerNorm_returns [OF n1 x]])
    apply (rule returnsM_bindM [OF MultiHeadAttention_returns [OF a1 _ _ _ pos mk]], assumption+)
    apply (rule returnsM_bindM [OF Dropout_returns], assumption)
    apply (rule returnsM_bindM [OF add_t_returns [OF x]], assumption)
    apply (rule returnsM_bindM [OF LayerNorm_returns [OF n2]], assumption)
    apply (rule returnsM_bindM [OF MultiHeadAttention_returns [OF a2 _ e e pos mk2]], assumption)
    apply (rule returnsM_bindM [OF Dropout_returns], assumption)
    apply (rule returnsM_bindM [OF add_t_returns], assumption, assumption)
    apply (rule returnsM_bindM [OF LayerNorm_returns [OF n3]], assumption)
    apply (rule returnsM_bindM [OF FeedForward_returns [OF ff]], assumption)
    apply (rule returnsM_bindM [OF Dropout_returns], assumption)
    apply (rule add_t_returns, assumption+)
    done
qed

lemma run_layers_returns:
  assumes "\<And>l x. l \<in> set ls \<Longrightarrow> P x \<Longrightarrow> returnsM (f l x) P"
    and "\<forall>i \<in> set is. i < length ls" and "P x"
  shows "returnsM (run_layers f ls is x) P"
  using assms(2,3)
proof (induction "is" arbitrary: x)
  case Nil
  then show ?case by (simp add: returnsM_returnM)
next
  case (Cons i "is")
  have i: "i < length ls" using Cons.prems by simp
  have "returnsM (bindM (f (ls ! i) x) (run_layers f ls is)) P"
  proof (rule returnsM_bindM)
    show "returnsM (f (ls ! i) x) P" using assms(1) i Cons.prems by simp
  next
    fix r assume "P r"
    then show "returnsM (run_layers f ls is r) P" using Cons by simp
  qed
  then show ?case using i by simp
qed

lemma PositionalEncoding_returns:
  assumes "shape x = [b, l, d]" "l \<le> w"
  shows "returnsM (liftE (PositionalEncoding_forward (PositionalEncoding_init w d) x))
           (\<lambda>r. shape r = [b, l, d])"
proof -
  have "shape (pe (PositionalEncoding_init w d)) = [1, w, d]"
    using PositionalEncoding_table [of w d] by simp
  then show ?thesis
    using PositionalEncoding_forward_add [OF assms(1) _ assms(2)]
    by (intro returnsM_liftE_ex) simp
qed

lemma Encoder_forward_shape:
  assumes ok: "Encoder_ok N w h d m" and x: "shape x = [b, l, d]" and l: "l \<le> w"
    and pos: "0 < b" "0 < h" "0 < d"
  shows "returnsM (Encoder_forward m x) (\<lambda>r. shape r = [b, l, d])"
proof -
  have m: "enc_N m = N" "enc_pe m = PositionalEncoding_init w d" "length (dynamiclayers m) = N"
    and ls: "list_all (EncoderLayer_ok h d) (dynamiclayers m)"
    and n: "LayerNorm_ok d (enc_norm m)"
    using ok by (simp_all add: Encoder_ok_def)
  have step: "returnsM (EncoderLayer_forward el x) (\<lambda>r. shape r = [b, l, d])"
    if "el \<in> set (dynamiclayers m)" "shape x = [b, l, d]" for el x
    using ls that pos by (intro EncoderLayer_forward_shape [where h = h]) (auto simp: list_all_iff)
  show ?thesis
    unfolding Encoder_forward_def m(1,2)
    apply (rule returnsM_bindM [OF PositionalEncoding_returns [OF x l]])
    apply (rule returnsM_bindM [where P = "\<lambda>r. shape r = [b, l, d]"])
     apply (rule run_layers_returns [where P = "\<lambda>r. shape r = [b, l, d]"])
       apply (rule step, assumption, assumption)
      apply (simp add: m)
     apply assumption
    apply (rule LayerNorm_returns [OF n], assumption)
    done
qed

lemma Decoder_forward_shape:
  assumes ok: "Decoder_ok N w h d msk m" and x: "shape x = [b, l, d]" and l: "l \<le> w"
    and e: "shape enc_out = [b, sk, d]"
    and pos: "0 < b" "0 < h" "0 < d" and mk: "N = 0 \<or> mask_ok l l msk"
  shows "returnsM (Decoder_forward m x enc_out) (\<lambda>r. shape r = [b, l, d])"
proof -
  have m: "dec_N m = N" "dec_pe m = PositionalEncoding_init w d" "length (decoderlayers m) = N"
    and ls: "list_all (DecoderLayer_ok h d msk) (decoderlayers m)"
    and n: "LayerNorm_ok d (dec_norm m)"
    using ok by (simp_all add: Decoder_ok_def)
  have step: "returnsM (DecoderLayer_forward dl x enc_out) (\<lambda>r. shape r = [b, l, d])"
    if "dl \<in> set (decoderlayers m)" "shape x = [b, l, d]" for dl x
  proof -
    have "N \<noteq> 0" using that(1) m(3) by auto
    then have "mask_ok l l msk" using mk by simp
    then show ?thesis
      using ls that pos e
      by (intro DecoderLayer_forward_shape [where h = h and msk = msk and sk = sk])
        (auto simp: list_all_iff)
  qed
  show ?thesis
    unfolding Decoder_forward_def m(1,2)
    apply (rule returnsM_bindM [OF PositionalEncoding_returns [OF x l]])
    apply (rule returnsM_bindM [where P = "\<lambda>r. shape r = [b, l, d]"])
     apply (rule run_layers_returns [where P = "\<lambda>r. shape r = [b, l, d]"])
       apply (rule step, assumption, assumption)
      apply (simp add: m)
     apply assumption
    apply (rule LayerNorm_returns [OF n], assumption)
    done
qed

section \<open>The top-level forward pass\<close>

lemma view_flatten:
  assumes "shape t = [b, c, d]" "0 < b"
  shows "view t [Dim b, Infer] = Inr \<lparr>shape = [b, c * d], data = data t\<rparr>"
  using assms by (simp add: view_def numel_def Let_def)

lemma view_unflatten:
  assumes "shape t = [b, p * d]" "0 < p" "0 < d"
  shows "view t [Infer, Dim p, Dim d] = Inr \<lparr>shape = [b, p, d], data = data t\<rparr>"
proof -
  have "b * (p * d) mod (p * d) = 0" "b * (p * d) div (p * d) = b"
    using assms by simp_all
  then show ?thesis
    using assms by (simp add: view_def numel_def Let_def)
qed

lemma view_squeeze:
  assumes "shape t = [b, p, d]"
  shows "view t [Dim b, Dim p] =
           (if b * p = b * p * d then Inr \<lparr>shape = [b, p], data = data t\<rparr> else Inl ViewError)"
  using assms by (auto simp: view_def numel_def Let_def)

lemma learn_returns:
  assumes ok: "layers_ok [Lin_ok i out, is_ReLU, Drop_ok] ls" and x: "shape x = [b, i]"
  shows "returnsM (Sequential_forward ls x) (\<lambda>r. shape r = [b, out])"
proof -
  obtain l dr where ls: "ls = [Lin l, ReLU, Drop dr]" and l: "Linear_ok i out True l"
    using ok unfolding layers_ok_def
    by (auto simp: list_all2_Cons1 Lin_ok_iff is_ReLU_iff Drop_ok_iff)
  have 1: "returnsM (liftE (Linear_forward l x)) (\<lambda>r. shape r = [b, out])"
    using F_linear_shape [OF l, of x "[b]"] x by (intro returnsM_liftE_ex) auto
  show ?thesis
    unfolding ls Sequential_forward.simps layer_forward.simps
    apply (rule returnsM_bindM [OF 1])
    apply (rule returnsM_bindM [OF returnsM_returnM [where P = "\<lambda>r. shape r = [b, out]"]])
     apply simp
    apply (rule returnsM_bindM [OF Dropout_returns], assumption)
    apply (rule returnsM_returnM, assumption)
    done
qed

lemma round_to_even_bounds:
  assumes "of_int n \<le> y" "y \<le> of_int m"
  shows "n \<le> round_to_even y \<and> round_to_even y \<le> m"
proof -
  have f: "n \<le> \<lfloor>y\<rfloor>" "\<lfloor>y\<rfloor> \<le> m" using assms by (simp_all add: le_floor_iff floor_le_iff)
  have up: "\<lfloor>y\<rfloor> + 1 \<le> m" if "1 / 2 \<le> y - of_int \<lfloor>y\<rfloor>"
  proof -
    have "of_int \<lfloor>y\<rfloor> < y" using that by simp
    then have "of_int \<lfloor>y\<rfloor> < (of_int m :: real)" using assms(2) by simp
    then show ?thesis by simp
  qed
  show ?thesis
    using f up by (auto simp: round_to_even_def Let_def)
qed

lemma floor_log2_half: "1 / 2 \<le> y \<Longrightarrow> y < 1 \<Longrightarrow> \<lfloor>log 2 y\<rfloor> = - 1"
proof -
  assume a: "1 / 2 \<le> y" "y < 1"
  have "log 2 (1 / 2) \<le> log 2 y" using a by (simp del: log_divide)
  moreover have "log 2 (1 / 2) = - 1" by (simp add: log_divide)
  moreover have "log 2 y < 0" using a by simp
  ultimately show ?thesis by (simp add: floor_eq_iff)
qed

lemma float_round_scaled:
  assumes "1 / 2 \<le> y" "y < 1" "emin \<le> - 1"
  shows "float_round p emin y = of_int (round_to_even (y * 2 ^ p)) / 2 ^ p"
proof -
  have y: "y \<noteq> 0" "\<bar>y\<bar> = y" using assms by simp_all
  have e: "max emin (- 1) = - 1" using assms(3) by simp
  have "of_int (- 1) - (real p - 1) = - real p" by simp
  moreover have "2 powr (- real p) = 1 / (2 ^ p :: real)"
    by (simp add: powr_minus_divide powr_realpow)
  ultimately have u: "2 powr (of_int (- 1) - (real p - 1)) = 1 / (2 ^ p :: real)"
    by (simp only:)
  show ?thesis
    unfolding float_round_def y floor_log2_half [OF assms(1,2)] Let_def e u
    using y by simp
qed

lemma float_round_half_one:
  assumes "1 / 2 \<le> y" "y < 1" "emin \<le> - 1" "0 < p"
  shows "1 / 2 \<le> float_round p emin y \<and> float_round p emin y \<le> 1"
proof -
  obtain q where p: "p = Suc q" using assms(4) by (cases p) simp_all
  have "(2::real) ^ q \<le> y * 2 ^ p" using assms(1) by (simp add: p)
  then have lo: "of_int (2 ^ q) \<le> y * 2 ^ p" by simp
  have "y * 2 ^ p \<le> 2 ^ p" using assms(2) by simp
  then have hi: "y * 2 ^ p \<le> of_int (2 ^ p)" by simp
  have "2 ^ q \<le> round_to_even (y * 2 ^ p) \<and> round_to_even (y * 2 ^ p) \<le> 2 ^ p"
    using lo hi by (rule round_to_even_bounds)
  then have "(of_int (2 ^ q) :: real) \<le> of_int (round_to_even (y * 2 ^ p))"
    "(of_int (round_to_even (y * 2 ^ p)) :: real) \<le> of_int (2 ^ p)"
    by (simp_all only: of_int_le_iff)
  then have "(2 ^ q :: real) \<le> of_int (round_to_even (y * 2 ^ p))"
    "of_int (round_to_even (y * 2 ^ p)) \<le> (2 ^ p :: real)"
    by simp_all
  then show ?thesis
    unfolding float_round_scaled [OF assms(1-3)] by (simp add: field_simps p)
qed



lemma logistic_bounds: "0 \<le> v \<Longrightarrow> 1 / 2 \<le> 1 / (1 + exp (- v)) \<and> 1 / (1 + exp (- v)) < (1::real)"
proof -
  assume "0 \<le> v"
  then have "exp (- v) \<le> 1" by simp
  moreover have "0 < exp (- v)" by simp
  ultimately have "1 + exp (- v) \<le> 2" "1 < 1 + exp (- v)" "0 < 1 + exp (- v)"
    by (simp_all add: add_pos_pos)
  then show ?thesis
    by (simp add: pos_le_divide_eq pos_divide_less_eq)
qed

lemma float_round_logistic_bounds:
  assumes "0 \<le> v" "emin \<le> - 1" "0 < p"
  shows "1 / 2 \<le> float_round p emin (1 / (1 + exp (- v)))
         \<and> float_round p emin (1 / (1 + exp (- v))) \<le> 1"
  using logistic_bounds [OF assms(1)] assms(2,3) by (intro float_round_half_one) simp_all


lemma float32_logistic_bounds:
  "0 \<le> v \<Longrightarrow> 1 / 2 \<le> float32 (1 / (1 + exp (- v))) \<and> float32 (1 / (1 + exp (- v))) \<le> 1"
  unfolding float32_def by (rule float_round_logistic_bounds) simp_all


lemma data_relu: "data (relu t) = map (\<lambda>v. max 0 v) (data t)"
  and data_sigmoid: "data (sigmoid t) = map (\<lambda>v. float32 (1 / (1 + exp (- v)))) (data t)"
  by (simp_all add: relu_def sigmoid_def)

lemma map_returns:
  assumes ok: "layers_ok (if experiment = ''return'' then [Lin_ok p p, is_ReLU, Drop_ok]
                          else [Lin_ok p p, is_ReLU, Drop_ok, is_Sigmoid]) ls"
    and x: "shape x = [b, p]"
  shows "returnsM (Sequential_forward ls x)
           (\<lambda>r. shape r = [b, p] \<and> wf r
               \<and> (\<forall>v \<in> set (data r). if experiment = ''return'' then 0 \<le> v
                                        else 1 / 2 \<le> v \<and> v \<le> 1))"
proof -
  obtain l dr where ls: "ls = (if experiment = ''return'' then [Lin l, ReLU, Drop dr]
                               else [Lin l, ReLU, Drop dr, Sigmoid])"
    and l: "Linear_ok p p True l" and dr: "Dropout_ok dr"
    using ok unfolding layers_ok_def
    by (auto simp: list_all2_Cons1 Lin_ok_iff is_ReLU_iff Drop_ok_iff is_Sigmoid_iff
        split: if_splits)
  let ?P1 = "\<lambda>r :: real tensor. shape r = [b, p] \<and> wf r"
  let ?P2 = "\<lambda>r :: real tensor. shape r = [b, p] \<and> wf r \<and> (\<forall>v \<in> set (data r). 0 \<le> v)"
  have 1: "returnsM (liftE (Linear_forward l x)) ?P1"
    using F_linear_shape [OF l, of x "[b]"] x by (intro returnsM_liftE_ex) auto
  have 2: "returnsM (returnM (relu r)) ?P2" if "?P1 r" for r
    using that by (intro returnsM_returnM) (auto simp: data_relu)
  have 3: "returnsM (Dropout_forward dr r) ?P2" if "?P2 r" for r
    using that dr by (intro returnsM_weaken [OF Dropout_forward_returns]) auto
  have 4: "returnsM (returnM (sigmoid r))
      (\<lambda>r. shape r = [b, p] \<and> wf r \<and> (\<forall>v \<in> set (data r). 1 / 2 \<le> v \<and> v \<le> 1))" if "?P2 r" for r
    using that float32_logistic_bounds by (intro returnsM_returnM) (auto simp: data_sigmoid)
  show ?thesis
  proof (cases "experiment = ''return''")
    case True
    then have ls': "ls = [Lin l, ReLU, Drop dr]" using ls by simp
    show ?thesis
      unfolding ls' Sequential_forward.simps layer_forward.simps using True
      apply simp
      apply (rule returnsM_bindM [OF 1])
      apply (rule returnsM_bindM [OF 2], assumption)
      apply (rule returnsM_bindM [OF 3], assumption)
      apply (rule returnsM_returnM)
      apply simp
      done
  next
    case False
    then have ls': "ls = [Lin l, ReLU, Drop dr, Sigmoid]" using ls by simp
    show ?thesis
      unfolding ls' Sequential_forward.simps layer_forward.simps using False
      apply simp
      apply (rule returnsM_bindM [OF 1])
      apply (rule returnsM_bindM [OF 2], assumption)
      apply (rule returnsM_bindM [OF 3], assumption)
      apply (rule returnsM_bindM [OF 4], assumption)
      apply (rule returnsM_returnM)
      apply simp
      done
  qed
qed

lemma decomp_bindM:
  assumes "returnsM f P" "\<And>r. P r \<Longrightarrow> \<forall>g. \<exists>d g1. Q d \<and> h r g = k d g1"
  shows "\<forall>g. \<exists>d g1. Q d \<and> bindM f h g = k d g1"
proof
  fix g
  obtain r g0 where f: "f g = Inr (r, g0)" "P r" using assms(1) unfolding returnsM_iff by blast
  show "\<exists>d g1. Q d \<and> bindM f h g = k d g1"
    using assms(2) [OF f(2), rule_format, of g0] f by (simp add: bindM_def)
qed

lemma Ml4fTransformer_forward_decomp:
  assumes ok: "Ml4fTransformer_ok experiment d_e d_d N h msk cw pw w m"
    and x: "shape x = [b, cw, d_e]" and y: "shape y = [b, pw, d_d]"
    and win: "cw \<le> w" "pw \<le> w"
    and pos: "0 < b" "0 < h" "0 < d_e" "0 < d_d" "0 < pw"
    and mk: "N = 0 \<or> mask_ok pw pw msk"
  shows "\<forall>g. \<exists>dec g1. shape dec = [b, pw, d_d]
           \<and> Ml4fTransformer_forward m x y g =
               bindM (liftE (view dec [Dim b, Dim pw])) (Sequential_forward (map_m m)) g1"
proof -
  have m: "d_model_d m = d_d" "pred_window m = pw"
    and enc: "Encoder_ok N w h d_e (dynamicencode m)"
    and lrn: "layers_ok [Lin_ok (cw * d_e) (pw * d_d), is_ReLU, Drop_ok] (learn m)"
    and dec: "Decoder_ok N w h d_d msk (decoder m)"
    using ok by (simp_all add: Ml4fTransformer_ok_def)
  have sz: "returnsM (liftE (size_t x 0)) (\<lambda>r. r = b)"
    using x by (intro returnsM_liftE_ex) simp
  have v1: "returnsM (liftE (view t [Dim b, Infer])) (\<lambda>r. shape r = [b, cw * d_e])"
    if "shape t = [b, cw, d_e]" for t :: "real tensor"
    using view_flatten [OF that pos(1)] by (intro returnsM_liftE_ex) simp
  have v2: "returnsM (liftE (view t [Infer, Dim pw, Dim d_d])) (\<lambda>r. shape r = [b, pw, d_d])"
    if "shape t = [b, pw * d_d]" for t :: "real tensor"
    using view_unflatten [OF that pos(5) pos(4)] by (intro returnsM_liftE_ex) simp
  show ?thesis
    unfolding Ml4fTransformer_forward_def m
    apply (rule decomp_bindM [OF sz])
    apply (rule decomp_bindM [OF Encoder_forward_shape [OF enc x win(1) pos(1,2,3)]])
    apply (simp only:)
    apply (rule decomp_bindM [OF v1], assumption)
    apply (rule decomp_bindM [OF learn_returns [OF lrn]], assumption)
    apply (rule decomp_bindM [OF v2], assumption)
    apply (rule decomp_bindM [OF Decoder_forward_shape [OF dec y win(2) _ pos(1,2,4) mk]], assumption)
    apply blast
    done
qed

lemma Ml4fTransformer_forward_returns:
  assumes ok: "Ml4fTransformer_ok experiment d_e 1 N h msk cw pw w m"
    and x: "shape x = [b, cw, d_e]" and y: "shape y = [b, pw, 1]"
    and win: "cw \<le> w" "pw \<le> w"
    and pos: "0 < b" "0 < h" "0 < d_e" "0 < pw"
    and mk: "N = 0 \<or> mask_ok pw pw msk"
    and final: "\<And>dec. shape dec = [b, pw] \<Longrightarrow> returnsM (Sequential_forward (map_m m) dec) Q"
  shows "returnsM (Ml4fTransformer_forward m x y) Q"
  unfolding returnsM_iff
proof
  fix g
  obtain dec g1 where d: "shape dec = [b, pw, 1]"
    "Ml4fTransformer_forward m x y g =
       bindM (liftE (view dec [Dim b, Dim pw])) (Sequential_forward (map_m m)) g1"
    using Ml4fTransformer_forward_decomp [OF ok x y win pos(1-3) _ pos(4) mk, THEN spec, of g]
    by auto
  let ?d = "\<lparr>shape = [b, pw], data = data dec\<rparr>"
  have v: "view dec [Dim b, Dim pw] = Inr ?d"
    using view_squeeze [OF d(1)] by simp
  have "returnsM (Sequential_forward (map_m m) ?d) Q" by (rule final) simp
  then obtain r g' where "Sequential_forward (map_m m) ?d g1 = Inr (r, g')" "Q r"
    unfolding returnsM_iff by blast
  then show "\<exists>r g'. Ml4fTransformer_forward m x y g = Inr (r, g') \<and> Q r"
    by (simp add: d(2) v bindM_def liftE_def)
qed

lemma Ml4fTransformer_forward_view_fails:
  assumes ok: "Ml4fTransformer_ok experiment d_e d_d N h msk cw pw w m"
    and x: "shape x = [b, cw, d_e]" and y: "shape y = [b, pw, d_d]"
    and win: "cw \<le> w" "pw \<le> w"
    and pos: "0 < b" "0 < h" "0 < d_e" "0 < pw"
    and dd: "1 < d_d"
    and mk: "N = 0 \<or> mask_ok pw pw msk"
  shows "failsM (Ml4fTransformer_forward m x y) ViewError"
  unfolding failsM_def
proof
  fix g
  have p: "0 < d_d" using dd by simp
  obtain dec g1 where d: "shape dec = [b, pw, d_d]"
    "Ml4fTransformer_forward m x y g =
       bindM (liftE (view dec [Dim b, Dim pw])) (Sequential_forward (map_m m)) g1"
    using Ml4fTransformer_forward_decomp [OF ok x y win pos(1-3) p pos(4) mk, THEN spec, of g]
    by auto
  have "b * pw \<noteq> b * pw * d_d" using pos dd by simp
  then have v: "view dec [Dim b, Dim pw] = Inl ViewError"
    using view_squeeze [OF d(1)] by simp
  show "Ml4fTransformer_forward m x y g = Inl ViewError"
    by (simp add: d(2) v bindM_def liftE_def)
qed

section \<open>The constructors\<close>

lemma Linear_init_returns: "returnsM (Linear_init i out hb) (Linear_ok i out hb)"
  by (simp add: returnsM_iff Linear_init_def draw_def Linear_ok_def wf_def)

lemma Dropout_init_returns:
  "0 \<le> p \<Longrightarrow> p \<le> 1 \<Longrightarrow> returnsM (liftE (Dropout_init p)) Dropout_ok"
  by (simp add: returnsM_iff liftE_def Dropout_init_def Dropout_ok_def)

lemma LayerNorm_init_ok [simp]: "LayerNorm_ok d (LayerNorm_init d)"
  by (simp add: LayerNorm_ok_def LayerNorm_init_def ones_def zeros_def)

lemma MultiHeadAttention_init_returns:
  assumes "0 \<le> p" "p \<le> 1"
  shows "returnsM (MultiHeadAttention_init h d cw pw first p msk) (MultiHeadAttention_ok h d msk)"
  unfolding MultiHeadAttention_init_def
  apply (rule returnsM_bindM [OF Dropout_init_returns [OF assms]])
  apply (rule returnsM_bindM [OF Linear_init_returns])
  apply (rule returnsM_bindM [OF Linear_init_returns])
  apply (rule returnsM_bindM [OF Linear_init_returns])
  apply (rule returnsM_bindM [OF Linear_init_returns])
  apply (rule returnsM_returnM)
  apply (simp add: MultiHeadAttention_ok_def)
  done

lemma FeedForward_init_returns:
  assumes "0 \<le> p" "p \<le> 1"
  shows "returnsM (FeedForward_init d p) (FeedForward_ok d)"
  unfolding FeedForward_init_def
  apply (rule returnsM_bindM [OF Linear_init_returns])
  apply (rule returnsM_bindM [OF Dropout_init_returns [OF assms]])
  apply (rule returnsM_bindM [OF Linear_init_returns])
  apply (rule returnsM_returnM)
  apply (simp add: FeedForward_ok_def layers_ok_def)
  done

lemma EncoderLayer_init_returns:
  assumes "0 \<le> p" "p \<le> 1"
  shows "returnsM (EncoderLayer_init h d cw pw p) (EncoderLayer_ok h d)"
  unfolding EncoderLayer_init_def
  apply (rule returnsM_bindM [OF MultiHeadAttention_init_returns [OF assms]])
  apply (rule returnsM_bindM [OF FeedForward_init_returns])
    apply simp
   apply simp
  apply (rule returnsM_bindM [OF Dropout_init_returns [OF assms]])
  apply (rule returnsM_bindM [OF Dropout_init_returns [OF assms]])
  apply (rule returnsM_returnM)
  apply (simp add: EncoderLayer_ok_def)
  done

lemma DecoderLayer_init_returns:
  assumes "0 \<le> p" "p \<le> 1"
  shows "returnsM (DecoderLayer_init h d cw pw msk p) (DecoderLayer_ok h d msk)"
  unfolding DecoderLayer_init_def
  apply (rule returnsM_bindM [OF MultiHeadAttention_init_returns [OF assms]])
  apply (rule returnsM_bindM [OF MultiHeadAttention_init_returns [OF assms]])
  apply (rule returnsM_bindM [OF FeedForward_init_returns])
    apply simp
   apply simp
  apply (rule returnsM_bindM [OF Dropout_init_returns [OF assms]])
  apply (rule returnsM_bindM [OF Dropout_init_returns [OF assms]])
  apply (rule returnsM_bindM [OF Dropout_init_returns [OF assms]])
  apply (rule returnsM_returnM)
  apply (simp add: DecoderLayer_ok_def)
  done

lemma get_clones_props [simp]:
  "length (get_clones l N) = N" "list_all P (get_clones l N) \<longleftrightarrow> N = 0 \<or> P l"
  by (auto simp: get_clones_def list_all_iff)

lemma Encoder_init_returns:
  assumes "0 \<le> p" "p \<le> 1"
  shows "returnsM (Encoder_init N w h d cw pw p) (Encoder_ok N w h d)"
  unfolding Encoder_init_def
  apply (rule returnsM_bindM [OF EncoderLayer_init_returns [OF assms]])
  apply (rule returnsM_returnM)
  apply (simp add: Encoder_ok_def)
  done

lemma Decoder_init_returns:
  assumes "0 \<le> p" "p \<le> 1"
  shows "returnsM (Decoder_init N w h d cw pw msk p) (Decoder_ok N w h d msk)"
  unfolding Decoder_init_def
  apply (rule returnsM_bindM [OF DecoderLayer_init_returns [OF assms]])
  apply (rule returnsM_returnM)
  apply (simp add: Decoder_ok_def)
  done

lemma Ml4fTransformer_init_returns:
  assumes "0 \<le> p" "p \<le> 1"
  shows "returnsM (Ml4fTransformer_init experiment d_e d_d N h msk p cw pw w)
           (Ml4fTransformer_ok experiment d_e d_d N h msk cw pw w)"
  unfolding Ml4fTransformer_init_def
  apply (rule returnsM_bindM [OF Encoder_init_returns [OF assms]])
  apply (rule returnsM_bindM [OF Linear_init_returns])
  apply (rule returnsM_bindM [OF Dropout_init_returns [OF assms]])
  apply (rule returnsM_bindM [OF Decoder_init_returns [OF assms]])
  apply (rule returnsM_bindM [OF Linear_init_returns])
  apply (rule returnsM_bindM [OF Dropout_init_returns [OF assms]])
  apply (rule returnsM_returnM)
  apply (simp add: Ml4fTransformer_ok_def layers_ok_def)
  done

lemma Ml4fTransformer_init_default_mask_returns:
  assumes "0 \<le> p" "p \<le> 1" and "create_mask 5 5 = Inr mk"
  shows "returnsM (Ml4fTransformer_init_default_mask experiment d_e d_d N h p cw pw w)
           (Ml4fTransformer_ok experiment d_e d_d N h (Some mk) cw pw w)"
  unfolding Ml4fTransformer_init_default_mask_def default_first_mask_def
  apply (rule returnsM_bindM [OF returnsM_liftE [OF assms(3), where P = "\<lambda>r. r = mk"]])
   apply simp
  apply (simp add: Ml4fTransformer_init_returns [OF assms(1,2)])
  done

section \<open>Shape and range of the output\<close>

lemma mask_5_5_ok: "mask_ok 5 5 (Some mask_5_5)"
  by (simp add: mask_ok_def mask_5_5_def wf_def)

lemma create_mask_5_5_eq: "create_mask 5 5 = Inr mask_5_5"
  by (simp add: create_mask_5_5 mask_5_5_def)

lemma init_ex:
  assumes "0 \<le> p" "p \<le> 1"
  shows "\<exists>m g1. Ml4fTransformer_init experiment d_e d_d N h msk p cw pw w g = Inr (m, g1)
           \<and> Ml4fTransformer_ok experiment d_e d_d N h msk cw pw w m"
  using Ml4fTransformer_init_returns [OF assms] unfolding returnsM_iff by blast

text \<open>
  C1 (as the code has it).  For a model with decoder width \<open>d_model_d = 1\<close>, any
  encoder width, any positive number of heads and any depth \<open>N\<close>, a mask that
  fits the prediction window, a positional table at least as long as both
  windows, and inputs \<open>x\<close> of shape [b, context_window, d_model_e] and \<open>y\<close> of
  shape [b, pred_window, 1] with a nonempty batch, forward returns a tensor of
  shape [b, pred_window], whatever the draws of dropout.
\<close>

theorem Ml4fTransformer_forward_shape:
  assumes "Ml4fTransformer_ok experiment d_e 1 N heads first_mask cw pw pe_window m"
    and "shape x = [b, cw, d_e]" and "shape y = [b, pw, 1]"
    and "cw \<le> pe_window" and "pw \<le> pe_window"
    and "0 < b" and "0 < heads" and "0 < d_e" and "0 < pw"
    and "mask_ok pw pw first_mask"
  shows "\<forall>g. \<exists>t g'. Ml4fTransformer_forward m x y g = Inr (t, g') \<and> shape t = [b, pw]"
proof -
  have mp: "layers_ok (if experiment = ''return'' then [Lin_ok pw pw, is_ReLU, Drop_ok]
                    else [Lin_ok pw pw, is_ReLU, Drop_ok, is_Sigmoid]) (map_m m)"
    using assms(1) by (simp add: Ml4fTransformer_ok_def)
  have "returnsM (Ml4fTransformer_forward m x y) (\<lambda>r. shape r = [b, pw])"
  proof (rule Ml4fTransformer_forward_returns [OF assms(1-9)])
    show "N = 0 \<or> mask_ok pw pw first_mask" using assms(10) by simp
  next
    fix dec :: "real tensor" assume "shape dec = [b, pw]"
    then have "returnsM (Sequential_forward (map_m m) dec)
      (\<lambda>r. shape r = [b, pw] \<and> wf r
          \<and> (\<forall>v \<in> set (data r). if experiment = ''return'' then 0 \<le> v else 1 / 2 \<le> v \<and> v \<le> 1))"
      by (rule map_returns [OF mp])
    then show "returnsM (Sequential_forward (map_m m) dec) (\<lambda>r. shape r = [b, pw])"
      by (rule returnsM_weaken) (erule conjE)
  qed
  then show ?thesis by (simp add: returnsM_iff)
qed

theorem Ml4fTransformer_forward_shape_witness:
  "\<exists>m g1. Ml4fTransformer_init ''return'' 5 1 4 4 (Some mask_5_5) (1 / 10) 15 5 15 (\<lambda>_. 0) = Inr (m, g1)
     \<and> Ml4fTransformer_ok ''return'' 5 1 4 4 (Some mask_5_5) 15 5 15 m
     \<and> shape (zeros [4, 15, 5]) = [4, 15, 5] \<and> shape (zeros [4, 5, 1]) = [4, 5, 1]
     \<and> (15::nat) \<le> 15 \<and> (5::nat) \<le> 15 \<and> (0::nat) < 4 \<and> (0::nat) < 5
     \<and> mask_ok 5 5 (Some mask_5_5)
     \<and> (\<exists>t g2. Ml4fTransformer_forward m (zeros [4, 15, 5]) (zeros [4, 5, 1]) g1 = Inr (t, g2)
           \<and> shape t = [4, 5])"
proof -
  obtain m g1 where m: "Ml4fTransformer_init ''return'' 5 1 4 4 (Some mask_5_5) (1 / 10) 15 5 15 (\<lambda>_. 0)
      = Inr (m, g1)" "Ml4fTransformer_ok ''return'' 5 1 4 4 (Some mask_5_5) 15 5 15 m"
    using init_ex [of "1 / 10" "''return''" 5 1 4 4 "Some mask_5_5" 15 5 15 "\<lambda>_. 0"] by auto
  have s: "shape (zeros [4, 15, 5]) = [4, 15, 5]" "shape (zeros [4, 5, 1]) = [4, 5, 1]"
    by simp_all
  have n: "(15::nat) \<le> 15" "(5::nat) \<le> 15" "(0::nat) < 4" "(0::nat) < 5" by simp_all
  have "\<exists>t g2. Ml4fTransformer_forward m (zeros [4, 15, 5]) (zeros [4, 5, 1]) g1 = Inr (t, g2)
           \<and> shape t = [4, 5]"
    using Ml4fTransformer_forward_shape [OF m(2) s n(1,2,3,3,4,4) mask_5_5_ok] by blast
  then show ?thesis using m s n mask_5_5_ok by blast
qed

text \<open>
  With \<open>d_model_d = 2\<close> and everything else as in the script's own scenario, the
  decoder output has shape [4, 5, 2] and \<^verbatim>\<open>dec_output.view(b, self.pred_window)\<close> raises.
\<close>

theorem Ml4fTransformer_forward_shape_counterexample:
  "bindM (Ml4fTransformer_init ''return'' 5 2 4 4 (Some mask_5_5) (1 / 10) 15 5 15)
     (\<lambda>m. Ml4fTransformer_forward m (zeros [4, 15, 5]) (zeros [4, 5, 2])) (\<lambda>_. 0)
   = Inl ViewError"
proof -
  have "failsM (bindM (Ml4fTransformer_init ''return'' 5 2 4 4 (Some mask_5_5) (1 / 10) 15 5 15)
     (\<lambda>m. Ml4fTransformer_forward m (zeros [4, 15, 5]) (zeros [4, 5, 2]))) ViewError"
  proof (rule failsM_bindM_later [OF Ml4fTransformer_init_returns])
    fix m assume "Ml4fTransformer_ok ''return'' 5 2 4 4 (Some mask_5_5) 15 5 15 m"
    then show "failsM (Ml4fTransformer_forward m (zeros [4, 15, 5]) (zeros [4, 5, 2])) ViewError"
    proof (rule Ml4fTransformer_forward_view_fails)
      show "shape (zeros [4, 15, 5]) = [4, 15, 5]" by simp
      show "shape (zeros [4, 5, 2]) = [4, 5, 2]" by simp
      show "(4::nat) = 0 \<or> mask_ok 5 5 (Some mask_5_5)" using mask_5_5_ok by simp
    qed simp_all
  qed simp_all
  then show ?thesis by (simp add: failsM_def)
qed

section \<open>A masked attention module built by the constructor\<close>

text \<open>
  The module that \<open>MultiHeadAttention_init\<close> builds with two heads, width 3 and
  the causal mask of five positions, every parameter equal to 1, on a batch of
  two: forward returns, and returns the same with any dropout in the module.
\<close>

theorem MultiHeadAttention_forward_spec_witness:
  "\<exists>m g. MultiHeadAttention_init 2 3 5 5 (Some False) (1 / 10) (Some mask_5_5) (\<lambda>_. 1) = Inr (m, g)
     \<and> MultiHeadAttention_ok 2 3 (Some mask_5_5) m
     \<and> shape (ones [2, 5, 3]) = [2, 5, 3] \<and> (0::nat) < 2 \<and> (0::nat) < 3
     \<and> mask_ok 5 5 (Some mask_5_5)
     \<and> (\<exists>out. MultiHeadAttention_forward m (ones [2, 5, 3]) (ones [2, 5, 3]) (ones [2, 5, 3]) = Inr out
           \<and> shape out = [2, 5, 3]
           \<and> bias (q_linear m) = None \<and> bias (unifyheads m) \<noteq> None
           \<and> mha_mask m = Some mask_5_5
           \<and> MultiHeadAttention_forward (m\<lparr>mha_dropout := \<lparr>drop_p = 1, training = True\<rparr>\<rparr>)
                (ones [2, 5, 3]) (ones [2, 5, 3]) (ones [2, 5, 3]) = Inr out)"
proof -
  have "returnsM (MultiHeadAttention_init 2 3 5 5 (Some False) (1 / 10) (Some mask_5_5))
          (MultiHeadAttention_ok 2 3 (Some mask_5_5))"
    by (rule MultiHeadAttention_init_returns) simp_all
  then obtain m g where m:
    "MultiHeadAttention_init 2 3 5 5 (Some False) (1 / 10) (Some mask_5_5) (\<lambda>_. 1) = Inr (m, g)"
    "MultiHeadAttention_ok 2 3 (Some mask_5_5) m"
    unfolding returnsM_iff by blast
  have s: "shape (ones [2, 5, 3]) = [2, 5, 3]" by (simp add: ones_def)
  have p: "(0::nat) < 2" "(0::nat) < 3" by simp_all
  obtain out where out:
    "MultiHeadAttention_forward m (ones [2, 5, 3]) (ones [2, 5, 3]) (ones [2, 5, 3]) = Inr out"
    "shape out = [2, 5, 3]"
    "bias (q_linear m) = None" "bias (unifyheads m) \<noteq> None" "mha_mask m = Some mask_5_5"
    "\<forall>dr. MultiHeadAttention_forward (m\<lparr>mha_dropout := dr\<rparr>)
            (ones [2, 5, 3]) (ones [2, 5, 3]) (ones [2, 5, 3]) = Inr out"
    using MultiHeadAttention_forward_spec [OF m(2) s s s p(1) p(1) p(2) mask_5_5_ok] by auto
  have "MultiHeadAttention_forward (m\<lparr>mha_dropout := \<lparr>drop_p = 1, training = True\<rparr>\<rparr>)
            (ones [2, 5, 3]) (ones [2, 5, 3]) (ones [2, 5, 3]) = Inr out"
    using out(6) by (rule spec)
  then show ?thesis using m s p mask_5_5_ok out(1-5) by blast
qed

section \<open>Models with constant parameters\<close>









































section \<open>Range of the output in the two variants\<close>




section \<open>The default mask\<close>

lemma broadcast_default_mask:
  "s \<noteq> 5 \<Longrightarrow> broadcast_shapes [Suc 0, 5, 5] [n, s, s] = (if s = 1 then Some [n, 5, 5] else None)"
  by (auto simp: broadcast_shapes_def)

lemma sdpa_default_mask_fails:
  fixes k q v :: "real tensor"
  assumes k: "shape k = [b, s, h, d]" and q: "shape q = [b, s, h, d]"
    and v: "shape v = [b, s, h, d]"
    and pos: "0 < b" "0 < h" "0 < d"
    and mk: "shape mk = [1, 5, 5]" and s: "s \<noteq> 5"
  shows "scaled_dot_product_attention k q v (Some mk)
           = Inl (if s = 1 then MatmulError else MaskedFillError)"
proof -
  obtain k1 where k1:
      "\<And>f :: real tensor \<Rightarrow> error + real tensor.
         bindE (transpose_t k (Suc 0) 2) (\<lambda>tt. bindE (view tt [Dim (b * h), Infer, Dim d]) f) = f k1"
      "shape k1 = [b * h, s, d]"
    using split_heads [OF k pos] by auto
  obtain q1 where q1:
      "\<And>f :: real tensor \<Rightarrow> error + real tensor.
         bindE (transpose_t q (Suc 0) 2) (\<lambda>tt. bindE (view tt [Dim (b * h), Infer, Dim d]) f) = f q1"
      "shape q1 = [b * h, s, d]"
    using split_heads [OF q pos] by auto
  obtain v1 where v1:
      "\<And>f :: real tensor \<Rightarrow> error + real tensor.
         bindE (transpose_t v (Suc 0) 2) (\<lambda>tt. bindE (view tt [Dim (b * h), Infer, Dim d]) f) = f v1"
      "shape v1 = [b * h, s, d]"
    using split_heads [OF v pos] by auto
  define k1t where "k1t = tabulate [b * h, d, s] (\<lambda>idx. elem k1 (swap (Suc 0) 2 idx))"
  have tk: "transpose_t k1 (Suc 0) 2 = Inr k1t"
    by (simp add: transpose3 [OF k1(2)] k1t_def)
  have k1t: "shape k1t = [b * h, d, s]" by (simp add: k1t_def)
  obtain sc0 where sc0: "matmul q1 k1t = Inr sc0" "shape sc0 = [b * h, s, s]"
    using matmul3_ex [OF q1(2) k1t] by auto
  have sh: "shape (eq_scalar mk 0) = [Suc 0, 5, 5]" using mk by (simp add: eq_scalar_def)
  show ?thesis
  proof (cases "s = 1")
    case False
    have "masked_fill sc0 (eq_scalar mk 0) (- 1000000000) = Inl MaskedFillError"
      unfolding masked_fill_def sh sc0(2) broadcast_default_mask [OF s] using False by simp
    then show ?thesis
      unfolding scaled_dot_product_attention_def
      using False by (simp add: k k1(1) q1(1) v1(1) tk sc0(1))
  next
    case True
    define sc1 where "sc1 = tabulate [b * h, 5, 5]
        (\<lambda>idx. if elem (eq_scalar mk 0) (bidx [Suc 0, 5, 5] idx) then - 1000000000
               else elem sc0 (bidx [b * h, s, s] idx))"
    have mf: "masked_fill sc0 (eq_scalar mk 0) (- 1000000000) = Inr sc1"
      unfolding masked_fill_def sh sc0(2) broadcast_default_mask [OF s] sc1_def using True by simp
    have s1: "shape sc1 = [b * h, 5, 5]" by (simp add: sc1_def)
    obtain sc2 where sc2: "softmax sc1 2 = Inr sc2" "shape sc2 = [b * h, 5, 5]"
      using softmax3 [OF s1] by auto
    have mm: "matmul sc2 v1 = Inl MatmulError"
      using True by (simp add: matmul_def sc2(2) v1(2))
    show ?thesis
      unfolding scaled_dot_product_attention_def
      using True by (simp add: k k1(1) q1(1) v1(1) tk sc0(1) mf sc2(1) mm)
  qed
qed

lemma MultiHeadAttention_default_mask_fails:
  assumes ok: "MultiHeadAttention_ok h d (Some mk) m"
    and x: "shape x = [b, s, d]"
    and pos: "0 < b" "0 < h" "0 < d"
    and mk: "shape mk = [1, 5, 5]" and s: "s \<noteq> 5"
  shows "MultiHeadAttention_forward m x x x = Inl (if s = 1 then MatmulError else MaskedFillError)"
proof -
  have lk: "Linear_ok d (h * d) False (k_linear m)" and lq: "Linear_ok d (h * d) False (q_linear m)"
    and lv: "Linear_ok d (h * d) False (v_linear m)"
    and hm: "mha_h m = h" "mha_d_model m = d" "mha_mask m = Some mk"
    using ok by (simp_all add: MultiHeadAttention_ok_def)
  obtain kp where kp: "Linear_forward (k_linear m) x = Inr kp" "shape kp = [b, s, h * d]"
    using F_linear_shape [OF lk, of x "[b, s]"] x by auto
  obtain qp where qp: "Linear_forward (q_linear m) x = Inr qp" "shape qp = [b, s, h * d]"
    using F_linear_shape [OF lq, of x "[b, s]"] x by auto
  obtain vp where vp: "Linear_forward (v_linear m) x = Inr vp" "shape vp = [b, s, h * d]"
    using F_linear_shape [OF lv, of x "[b, s]"] x by auto
  define k4 where "k4 = \<lparr>shape = [b, s, h, d], data = data kp\<rparr>"
  define q4 where "q4 = \<lparr>shape = [b, s, h, d], data = data qp\<rparr>"
  define v4 where "v4 = \<lparr>shape = [b, s, h, d], data = data vp\<rparr>"
  have vk: "view kp [Dim b, Infer, Dim h, Dim d] = Inr k4"
    unfolding k4_def by (rule view_heads [OF kp(2) pos])
  have vq: "view qp [Dim b, Infer, Dim h, Dim d] = Inr q4"
    unfolding q4_def by (rule view_heads [OF qp(2) pos])
  have vv: "view vp [Dim b, Infer, Dim h, Dim d] = Inr v4"
    unfolding v4_def by (rule view_heads [OF vp(2) pos])
  have s4: "shape k4 = [b, s, h, d]" "shape q4 = [b, s, h, d]" "shape v4 = [b, s, h, d]"
    by (simp_all add: k4_def q4_def v4_def)
  have "scaled_dot_product_attention k4 q4 v4 (Some mk)
           = Inl (if s = 1 then MatmulError else MaskedFillError)"
    by (rule sdpa_default_mask_fails [OF s4 pos mk s])
  then show ?thesis
    by (simp add: MultiHeadAttention_forward_def x kp qp vp hm vk vq vv)
qed

lemma DecoderLayer_default_mask_fails:
  assumes ok: "DecoderLayer_ok h d (Some mk) m" and x: "shape x = [b, s, d]"
    and pos: "0 < b" "0 < h" "0 < d"
    and mk: "shape mk = [1, 5, 5]" and s: "s \<noteq> 5"
  shows "failsM (DecoderLayer_forward m x enc_out) (if s = 1 then MatmulError else MaskedFillError)"
proof -
  have n1: "LayerNorm_ok d (dl_norm_1 m)"
    and a1: "MultiHeadAttention_ok h d (Some mk) (attn_1 m)"
    using ok by (simp_all add: DecoderLayer_ok_def)
  show ?thesis
    unfolding DecoderLayer_forward_def
    apply (rule failsM_bindM_later [OF LayerNorm_returns [OF n1 x]])
    apply (rule failsM_bindM_first)
    apply (rule failsM_liftE)
    apply (rule MultiHeadAttention_default_mask_fails [OF a1 _ pos mk s], assumption)
    done
qed

lemma Decoder_default_mask_fails:
  assumes ok: "Decoder_ok N w h d (Some mk) m" and x: "shape x = [b, s, d]" and l: "s \<le> w"
    and pos: "0 < b" "0 < h" "0 < d"
    and mk: "shape mk = [1, 5, 5]" and s: "s \<noteq> 5" and n: "1 \<le> N"
  shows "failsM (Decoder_forward m x enc_out) (if s = 1 then MatmulError else MaskedFillError)"
proof -
  have m: "dec_N m = N" "dec_pe m = PositionalEncoding_init w d" "length (decoderlayers m) = N"
    and ls: "list_all (DecoderLayer_ok h d (Some mk)) (decoderlayers m)"
    using ok by (simp_all add: Decoder_ok_def)
  have l0: "DecoderLayer_ok h d (Some mk) (decoderlayers m ! 0)"
    using ls m(3) n by (simp add: list_all_length)
  have upt: "[0..<N] = 0 # [1..<N]" using n by (simp add: upt_conv_Cons)
  have run: "failsM (run_layers (\<lambda>l x. DecoderLayer_forward l x enc_out) (decoderlayers m) [0..<N] r)
               (if s = 1 then MatmulError else MaskedFillError)"
    if r: "shape r = [b, s, d]" for r
  proof -
    have "run_layers (\<lambda>l x. DecoderLayer_forward l x enc_out) (decoderlayers m) [0..<N] r
        = bindM (DecoderLayer_forward (decoderlayers m ! 0) r enc_out)
            (run_layers (\<lambda>l x. DecoderLayer_forward l x enc_out) (decoderlayers m) [1..<N])"
      unfolding upt using m(3) n by simp
    then show ?thesis
      using failsM_bindM_first [OF DecoderLayer_default_mask_fails [OF l0 r pos mk s]]
      by (simp only:)
  qed
  show ?thesis
    unfolding Decoder_forward_def m(1,2)
    apply (rule failsM_bindM_later [OF PositionalEncoding_returns [OF x l]])
    apply (rule failsM_bindM_first)
    apply (rule run, assumption)
    done
qed

lemma Ml4fTransformer_default_mask_fails:
  assumes ok: "Ml4fTransformer_ok experiment d_e d_d N h (Some mk) cw pw w m"
    and x: "shape x = [b, cw, d_e]" and y: "shape y = [b, pw, d_d]"
    and win: "cw \<le> w" "pw \<le> w"
    and pos: "0 < b" "0 < h" "0 < d_e" "0 < d_d" "0 < pw"
    and mk: "shape mk = [1, 5, 5]" and s: "pw \<noteq> 5" and n: "1 \<le> N"
  shows "failsM (Ml4fTransformer_forward m x y) (if pw = 1 then MatmulError else MaskedFillError)"
proof -
  have m: "d_model_d m = d_d" "pred_window m = pw"
    and enc: "Encoder_ok N w h d_e (dynamicencode m)"
    and lrn: "layers_ok [Lin_ok (cw * d_e) (pw * d_d), is_ReLU, Drop_ok] (learn m)"
    and dec: "Decoder_ok N w h d_d (Some mk) (decoder m)"
    using ok by (simp_all add: Ml4fTransformer_ok_def)
  have sz: "returnsM (liftE (size_t x 0)) (\<lambda>r. r = b)"
    using x by (intro returnsM_liftE_ex) simp
  have v1: "returnsM (liftE (view t [Dim b, Infer])) (\<lambda>r. shape r = [b, cw * d_e])"
    if "shape t = [b, cw, d_e]" for t :: "real tensor"
    using view_flatten [OF that pos(1)] by (intro returnsM_liftE_ex) simp
  have v2: "returnsM (liftE (view t [Infer, Dim pw, Dim d_d])) (\<lambda>r. shape r = [b, pw, d_d])"
    if "shape t = [b, pw * d_d]" for t :: "real tensor"
    using view_unflatten [OF that pos(5) pos(4)] by (intro returnsM_liftE_ex) simp
  show ?thesis
    unfolding Ml4fTransformer_forward_def m
    apply (rule failsM_bindM_later [OF sz])
    apply (rule failsM_bindM_later [OF Encoder_forward_shape [OF enc x win(1) pos(1,2,3)]])
    apply (simp only:)
    apply (rule failsM_bindM_later [OF v1], assumption)
    apply (rule failsM_bindM_later [OF learn_returns [OF lrn]], assumption)
    apply (rule failsM_bindM_later [OF v2], assumption)
    apply (rule failsM_bindM_first)
    apply (rule Decoder_default_mask_fails [OF dec y win(2) pos(1,2,4) mk s n])
    done
qed

lemma shape_mask_5_5 [simp]: "shape mask_5_5 = [1, 5, 5]"
  by (simp add: mask_5_5_def)

text \<open>
  C10 (as the code has it).  The default \<^verbatim>\<open>first_mask\<close> is the one [1, 5, 5] tensor
  \<open>create_mask 5 5\<close>.  Constructing a model with it succeeds for every prediction
  window.  When the prediction window is not 5 and the stack has at least one
  layer, every forward call on inputs of the configured shapes fails with a
  shape mismatch: the encoder returns, and the masked self-attention of the
  first decoder layer raises on every input of the decoder's shape (in
  \<^verbatim>\<open>masked_fill\<close>; for a prediction window of 1, where the mask broadcasts over
  the scores, in the matrix product after it).
\<close>

theorem default_mask_mismatch:
  assumes "0 \<le> dropout" and "dropout \<le> 1" and "1 \<le> N" and "pw \<noteq> 5"
    and "shape x = [b, cw, d_e]" and "shape y = [b, pw, d_d]"
    and "cw \<le> pe_window" and "pw \<le> pe_window"
    and "0 < b" and "0 < heads" and "0 < d_e" and "0 < d_d" and "0 < pw"
  shows "default_first_mask = Inr mask_5_5
    \<and> (\<forall>g. \<exists>m g'. Ml4fTransformer_init_default_mask experiment d_e d_d N heads dropout
                      cw pw pe_window g = Inr (m, g')
            \<and> Ml4fTransformer_ok experiment d_e d_d N heads (Some mask_5_5) cw pw pe_window m)
    \<and> (\<forall>m. Ml4fTransformer_ok experiment d_e d_d N heads (Some mask_5_5) cw pw pe_window m \<longrightarrow>
          (\<forall>g. Ml4fTransformer_forward m x y g
                 = Inl (if pw = 1 then MatmulError else MaskedFillError))
        \<and> (\<forall>g. \<exists>r g'. Encoder_forward (dynamicencode m) x g = Inr (r, g')
                  \<and> shape r = [b, cw, d_e])
        \<and> (\<forall>x2. shape x2 = [b, pw, d_d] \<longrightarrow>
              MultiHeadAttention_forward (attn_1 (decoderlayers (decoder m) ! 0)) x2 x2 x2
                = Inl (if pw = 1 then MatmulError else MaskedFillError)))"
proof (intro conjI allI impI)
  show "default_first_mask = Inr mask_5_5"
    by (simp add: default_first_mask_def create_mask_5_5_eq)
next
  fix g
  show "\<exists>m g'. Ml4fTransformer_init_default_mask experiment d_e d_d N heads dropout
                      cw pw pe_window g = Inr (m, g')
            \<and> Ml4fTransformer_ok experiment d_e d_d N heads (Some mask_5_5) cw pw pe_window m"
    using Ml4fTransformer_init_default_mask_returns [OF assms(1,2) create_mask_5_5_eq]
    unfolding returnsM_iff by blast
next
  fix m g
  assume ok: "Ml4fTransformer_ok experiment d_e d_d N heads (Some mask_5_5) cw pw pe_window m"
  show "Ml4fTransformer_forward m x y g = Inl (if pw = 1 then MatmulError else MaskedFillError)"
    using Ml4fTransformer_default_mask_fails
      [OF ok assms(5-13) shape_mask_5_5 assms(4) assms(3)]
    unfolding failsM_def by blast
next
  fix m g
  assume ok: "Ml4fTransformer_ok experiment d_e d_d N heads (Some mask_5_5) cw pw pe_window m"
  then have "Encoder_ok N pe_window heads d_e (dynamicencode m)"
    by (simp add: Ml4fTransformer_ok_def)
  then show "\<exists>r g'. Encoder_forward (dynamicencode m) x g = Inr (r, g') \<and> shape r = [b, cw, d_e]"
    using Encoder_forward_shape [OF _ assms(5) assms(7) assms(9,10,11)]
    unfolding returnsM_iff by blast
next
  fix m and x2 :: "real tensor"
  assume ok: "Ml4fTransformer_ok experiment d_e d_d N heads (Some mask_5_5) cw pw pe_window m"
    and x2: "shape x2 = [b, pw, d_d]"
  have "Decoder_ok N pe_window heads d_d (Some mask_5_5) (decoder m)"
    using ok by (simp add: Ml4fTransformer_ok_def)
  then have "DecoderLayer_ok heads d_d (Some mask_5_5) (decoderlayers (decoder m) ! 0)"
    using assms(3) by (simp add: Decoder_ok_def list_all_length)
  then have "MultiHeadAttention_ok heads d_d (Some mask_5_5) (attn_1 (decoderlayers (decoder m) ! 0))"
    by (simp add: DecoderLayer_ok_def)
  then show "MultiHeadAttention_forward (attn_1 (decoderlayers (decoder m) ! 0)) x2 x2 x2
                = Inl (if pw = 1 then MatmulError else MaskedFillError)"
    by (rule MultiHeadAttention_default_mask_fails [OF _ x2 assms(9,10,12) shape_mask_5_5 assms(4)])
qed

theorem default_mask_mismatch_witness:
  "(0::real) \<le> 1 / 10 \<and> (1::real) / 10 \<le> 1 \<and> (1::nat) \<le> 2 \<and> (3::nat) \<noteq> 5
   \<and> shape (zeros [4, 15, 5]) = [4, 15, 5] \<and> shape (zeros [4, 3, 1]) = [4, 3, 1]
   \<and> (15::nat) \<le> 15 \<and> (3::nat) \<le> 15 \<and> (0::nat) < 4 \<and> (0::nat) < 5 \<and> (0::nat) < 1
   \<and> (0::nat) < 3
   \<and> (\<exists>m g'. Ml4fTransformer_init_default_mask ''return'' 5 1 2 4 (1 / 10) 15 3 15 (\<lambda>_. 0)
                = Inr (m, g')
         \<and> Ml4fTransformer_forward m (zeros [4, 15, 5]) (zeros [4, 3, 1]) g' = Inl MaskedFillError)"
proof -
  have h: "(0::real) \<le> 1 / 10" "(1::real) / 10 \<le> 1" "(1::nat) \<le> 2" "(3::nat) \<noteq> 5"
    "shape (zeros [4, 15, 5]) = [4, 15, 5]" "shape (zeros [4, 3, 1]) = [4, 3, 1]"
    "(15::nat) \<le> 15" "(3::nat) \<le> 15" "(0::nat) < 4" "(0::nat) < 4" "(0::nat) < 5" "(0::nat) < 1"
    "(0::nat) < 3"
    by simp_all
  note th = default_mask_mismatch [OF h, of "''return''"]
  obtain m g' where m: "Ml4fTransformer_init_default_mask ''return'' 5 1 2 4 (1 / 10) 15 3 15 (\<lambda>_. 0)
                = Inr (m, g')"
      "Ml4fTransformer_ok ''return'' 5 1 2 4 (Some mask_5_5) 15 3 15 m"
    using th [THEN conjunct2, THEN conjunct1, rule_format, of "\<lambda>_. 0"] by blast
  have "Ml4fTransformer_forward m (zeros [4, 15, 5]) (zeros [4, 3, 1]) g'
      = Inl (if (3::nat) = 1 then MatmulError else MaskedFillError)"
    using th [THEN conjunct2, THEN conjunct2, rule_format, OF m(2)] by blast
  then have "Ml4fTransformer_forward m (zeros [4, 15, 5]) (zeros [4, 3, 1]) g' = Inl MaskedFillError"
    by simp
  then show ?thesis using h m(1) by blast
qed

text \<open>
  With \<open>N = 0\<close> the decoder has no layer, and so no masked self-attention: the
  default mask and a prediction window of 3 give an output of shape [4, 3].
\<close>

theorem default_mask_mismatch_counterexample:
  "map_sum id (\<lambda>r. shape (fst r))
     (bindM (Ml4fTransformer_init_default_mask ''return'' 5 1 0 4 (1 / 10) 15 3 15)
        (\<lambda>m. Ml4fTransformer_forward m (zeros [4, 15, 5]) (zeros [4, 3, 1])) (\<lambda>_. 0))
   = Inr [4, 3]"
proof -
  have "returnsM (bindM (Ml4fTransformer_init_default_mask ''return'' 5 1 0 4 (1 / 10) 15 3 15)
        (\<lambda>m. Ml4fTransformer_forward m (zeros [4, 15, 5]) (zeros [4, 3, 1])))
        (\<lambda>r. shape r = [4, 3])"
  proof (rule returnsM_bindM [OF Ml4fTransformer_init_default_mask_returns [OF _ _ create_mask_5_5_eq]])
    fix m assume ok: "Ml4fTransformer_ok ''return'' 5 1 0 4 (Some mask_5_5) 15 3 15 m"
    have mp: "layers_ok (if ''return'' = ''return'' then [Lin_ok 3 3, is_ReLU, Drop_ok]
                    else [Lin_ok 3 3, is_ReLU, Drop_ok, is_Sigmoid]) (map_m m)"
      using ok by (simp add: Ml4fTransformer_ok_def)
    show "returnsM (Ml4fTransformer_forward m (zeros [4, 15, 5]) (zeros [4, 3, 1])) (\<lambda>r. shape r = [4, 3])"
    proof (rule Ml4fTransformer_forward_returns [OF ok])
      show "shape (zeros [4, 15, 5]) = [4, 15, 5]" by simp
      show "shape (zeros [4, 3, 1]) = [4, 3, 1]" by simp
      show "(0::nat) = 0 \<or> mask_ok 3 3 (Some mask_5_5)" by simp
    next
      fix dec :: "real tensor" assume "shape dec = [4, 3]"
      then have "returnsM (Sequential_forward (map_m m) dec)
        (\<lambda>r. shape r = [4, 3] \<and> wf r
            \<and> (\<forall>v \<in> set (data r). if ''return'' = ''return'' then 0 \<le> v else 1 / 2 \<le> v \<and> v \<le> 1))"
        by (rule map_returns [OF mp])
      then show "returnsM (Sequential_forward (map_m m) dec) (\<lambda>r. shape r = [4, 3])"
        by (rule returnsM_weaken) (erule conjE)
    qed simp_all
  qed simp_all
  then obtain r g' where "bindM (Ml4fTransformer_init_default_mask ''return'' 5 1 0 4 (1 / 10) 15 3 15)
        (\<lambda>m. Ml4fTransformer_forward m (zeros [4, 15, 5]) (zeros [4, 3, 1])) (\<lambda>_. 0) = Inr (r, g')"
      "shape r = [4, 3]"
    unfolding returnsM_iff by blast
  then show ?thesis by simp
qed

end
